theory Spec2Isabelle
  imports Complex_Main "HOL-Library.List_Lexorder" "HOL-Library.Char_ord" "HOL-Library.Log_Nat"
begin

section \<open>The vaccination-bulletin scraper for China (cowidev/vax/incremental/china.py)\<close>

text \<open>
  The module scrapes two listings of a health authority's site with a browser session,
  turns each bulletin page into a row of a data frame, merges the two streams and hands
  the result to the dataset store. The embedding keeps the module's structure: one HOL
  function per method, exceptions as the left summand of a sum, the browser session and
  the persisted file as fields of an explicit state.
\<close>

subsection \<open>Exceptions\<close>

datatype error =
    AttributeError
  | ValueError
  | OverflowError
  | TypeError
  | TimeoutException
  | NoSuchElementException
  | ParseError string "string option"

text \<open>
  \<open>AttributeError\<close> is what Python raises for \<open>re.search(...).group(1)\<close> and
  \<open>re.search(...).groups()\<close> when the search returned \<open>None\<close>, and for the attribute
  \<open>.date\<close> of a data frame that has no such column. \<open>ValueError\<close> and \<open>OverflowError\<close>
  come from \<open>float\<close> and \<open>int\<close>. \<open>TypeError\<close> is the comparison of a string with a
  missing value. \<open>TimeoutException\<close> and \<open>NoSuchElementException\<close> are the browser's.
  \<open>ParseError field url\<close> is the typed failure of the specification's text parser; the
  module itself never constructs it.
\<close>

subsection \<open>Rows and data frames\<close>

text \<open>
  A row of a data frame. A column that a frame does not have (or that pandas fills with a
  missing value when frames of different columns are concatenated) is \<open>None\<close>.
\<close>

record row =
  date :: string
  total_vaccinations :: "int option"
  people_vaccinated :: "int option"
  people_fully_vaccinated :: "int option"
  total_boosters :: "int option"
  source_url :: string
  location :: "string option"
  vaccine :: "string option"

type_synonym dataframe = "row list"

subsection \<open>Class attributes\<close>

definition China_location :: string where
  "China_location = ''China''"

definition China_source_url :: string where
  "China_source_url = ''http://www.nhc.gov.cn/xcs/yqjzqk/list_gzbd.shtml''"

definition China_source_url_complete :: string where
  "China_source_url_complete = ''http://www.nhc.gov.cn/xcs/s2906/new_list.shtml''"

definition num_links_complete :: nat where
  "num_links_complete = 3"

definition China_vaccine :: string where
  "China_vaccine = ''CanSino, Sinopharm/Beijing, Sinopharm/Wuhan, Sinovac, ZF2001''"

subsection \<open>The web as the browser shows it\<close>

text \<open>
  The module looks at a page only through \<open>re.search\<close> with its own seven patterns, so
  a text is modelled by what each pattern captures in it (\<open>None\<close>: no match).
  An anchor is a \<open>li>a\<close> element: its \<open>href\<close> property and the groups of
  \<open>regex_complete["title"]\<close> in its text. The element \<open>xw_box\<close> of a bulletin page
  carries the groups of \<open>regex["date"]\<close> (year, month, day), the group of
  \<open>regex["total_vaccinations"]\<close>, the groups of \<open>regex_complete["doses"]\<close> (month, day,
  and the two numeral groups) and the two numeral groups of each of
  \<open>regex_complete["people"]\<close>, \<open>["fully"]\<close> and \<open>["boosters"]\<close>.
\<close>

record anchor =
  href :: string
  title_groups :: "(string \<times> string \<times> string) option"

record content =
  date_groups :: "(string \<times> string \<times> string) option"
  total_vaccinations_group :: "string option"
  doses_groups :: "(string \<times> string \<times> string \<times> string) option"
  people_groups :: "(string \<times> string) option"
  fully_groups :: "(string \<times> string) option"
  boosters_groups :: "(string \<times> string) option"

record page =
  anchors :: "anchor list"
  xw_box :: "content option"

datatype nav = Timeout | Loaded page

type_synonym web = "string \<Rightarrow> nav"

subsection \<open>State: the persisted file and the browser sessions\<close>

text \<open>
  \<open>datafile\<close> is the persisted dataset of the location; \<open>fetched\<close> lists the URLs
  given to \<open>driver.get\<close>, oldest first; \<open>acquired\<close> and \<open>released\<close> count the browser
  sessions opened and closed so far.
\<close>

record state =
  datafile :: dataframe
  fetched :: "string list"
  acquired :: nat
  released :: nat

definition driver_get :: "web \<Rightarrow> string \<Rightarrow> state \<Rightarrow> (error + page) \<times> state" where
  "driver_get w url s =
     (case w url of
        Timeout \<Rightarrow> (Inl TimeoutException, s\<lparr>fetched := fetched s @ [url]\<rparr>)
      | Loaded p \<Rightarrow> (Inr p, s\<lparr>fetched := fetched s @ [url]\<rparr>))"

definition find_element_by_id_xw_box :: "page \<Rightarrow> error + content" where
  "find_element_by_id_xw_box p =
     (case xw_box p of None \<Rightarrow> Inl NoSuchElementException | Some c \<Rightarrow> Inr c)"

text \<open>
  Modelled from the spec: \<open>get_driver\<close> (cowidev.utils.web.scraping) is not among the
  sources. The specification makes the browser session a scoped resource with a
  with-block guarantee: the session is acquired on entry and released on every exit
  path of the block, whether the body returns or raises.
\<close>

definition with_get_driver :: "(state \<Rightarrow> 'a \<times> state) \<Rightarrow> state \<Rightarrow> 'a \<times> state" where
  "with_get_driver body s =
     (case body (s\<lparr>acquired := acquired s + 1\<rparr>) of
        (r, s') \<Rightarrow> (r, s'\<lparr>released := released s' + 1\<rparr>))"

subsection \<open>Text helpers: digits, dates, counts\<close>

definition is_digit :: "char \<Rightarrow> bool" where
  "is_digit c = (c \<in> set ''0123456789'')"

definition digit_value :: "char \<Rightarrow> nat" where
  "digit_value c = of_char c - 48"

definition nat_of_digits :: "string \<Rightarrow> nat" where
  "nat_of_digits ds = foldl (\<lambda>n c. 10 * n + digit_value c) 0 ds"

definition leap_year :: "nat \<Rightarrow> bool" where
  "leap_year y = (y mod 4 = 0 \<and> (y mod 400 = 0 \<or> y mod 100 \<noteq> 0))"

definition days_in_month :: "nat \<Rightarrow> nat \<Rightarrow> nat" where
  "days_in_month y m =
     (if m = 2 then (if leap_year y then 29 else 28)
      else if m = 4 \<or> m = 6 \<or> m = 9 \<or> m = 11 then 30 else 31)"

definition pad2 :: "string \<Rightarrow> string" where
  "pad2 ds = (if length ds = 1 then CHR ''0'' # ds else ds)"

text \<open>
  Modelled from the spec: \<open>clean_date\<close> (cowidev.utils.clean) is not among the sources.
  The specification's date extraction normalises the captured numeric components to the
  canonical ISO form and fails with \<open>ParseError{field:"date"}\<close> when they are not a valid
  calendar date. The argument is the triple of components that the format string of the
  call (\<open>"%Y-%m-%d"\<close> or \<open>"%Y %m %d"\<close>) reads: a year of four digits, a month and a day
  of one or two digits. The helper is not given the page's URL, so the error carries none.
\<close>

definition clean_date :: "string \<times> string \<times> string \<Rightarrow> error + string" where
  "clean_date ymd =
     (case ymd of (y, m, d) \<Rightarrow>
        if length y = 4 \<and> list_all is_digit y
           \<and> (length m = 1 \<or> length m = 2) \<and> list_all is_digit m
           \<and> (length d = 1 \<or> length d = 2) \<and> list_all is_digit d
           \<and> 1 \<le> nat_of_digits y
           \<and> 1 \<le> nat_of_digits m \<and> nat_of_digits m \<le> 12
           \<and> 1 \<le> nat_of_digits d
           \<and> nat_of_digits d \<le> days_in_month (nat_of_digits y) (nat_of_digits m)
        then Inr (y @ ''-'' @ pad2 m @ ''-'' @ pad2 d)
        else Inl (ParseError ''date'' None))"

text \<open>
  Modelled from the spec: \<open>extract_clean_date\<close> (cowidev.utils.clean) is not among the
  sources. It applies the pattern, captures the numeric date components and normalises
  them; it fails with \<open>ParseError{field:"date"}\<close> when the pattern does not match or the
  components are not a valid calendar date. The argument is what \<open>regex["date"]\<close>
  captures in the text.
\<close>

definition extract_clean_date :: "(string \<times> string \<times> string) option \<Rightarrow> error + string" where
  "extract_clean_date groups =
     (case groups of
        None \<Rightarrow> Inl (ParseError ''date'' None)
      | Some ymd \<Rightarrow> clean_date ymd)"

text \<open>
  Modelled from the spec: \<open>clean_count\<close> (cowidev.utils.clean) is not among the sources.
  It strips grouping punctuation and magnitude words from the captured text and returns
  an integer: the digits that remain are read as a decimal numeral (\<open>int\<close> of a text
  without a digit raises \<open>ValueError\<close>).
\<close>

definition clean_count :: "string \<Rightarrow> error + int" where
  "clean_count txt =
     (case filter is_digit txt of
        [] \<Rightarrow> Inl ValueError
      | ds \<Rightarrow> Inr (int (nat_of_digits ds)))"

subsection \<open>Python floats\<close>

text \<open>
  A Python float is an IEEE 754 binary64 number. The values that occur here are never
  negative, so a float is \<open>Fin m e\<close>, the number \<open>m * 2 ^ e\<close> with a significand
  \<open>m\<close> of at most 53 bits, positive infinity, or not-a-number.
  \<open>fl p q\<close> is the float nearest to the fraction \<open>p / q\<close> (for \<open>0 \<le> p\<close> and
  \<open>0 < q\<close>), ties to even, with gradual underflow below \<open>2 ^ -1022\<close> and overflow to
  infinity from \<open>2 ^ 1024\<close> on. \<open>float\<close> of a decimal numeral, \<open>*\<close> and \<open>+\<close> are
  correctly rounded: they are \<open>fl\<close> of the exact result.
\<close>

datatype pyfloat = Fin int int | PosInf | NaN

text \<open>
  \<open>float_value\<close> is the rational number that a finite float stands for;
  \<open>float_nonneg\<close> holds of a float that is not a negative number. \<open>binade p q\<close> is
  the exponent of the leading bit of \<open>p / q\<close>, that is, \<open>2 ^ binade p q \<le> p / q\<close> and
  \<open>p / q < 2 ^ (binade p q + 1)\<close>; \<open>round_half_even p q\<close> is the integer nearest to
  \<open>p / q\<close>, the even one of two that are equally near.
\<close>

definition pow2 :: "int \<Rightarrow> rat" where
  "pow2 k = (if 0 \<le> k then 2 ^ nat k else 1 / 2 ^ nat (- k))"

fun float_value :: "pyfloat \<Rightarrow> rat option" where
  "float_value (Fin m e) = Some (of_int m * pow2 e)"
| "float_value PosInf = None"
| "float_value NaN = None"

fun float_nonneg :: "pyfloat \<Rightarrow> bool" where
  "float_nonneg (Fin m e) = (0 \<le> m)"
| "float_nonneg PosInf = True"
| "float_nonneg NaN = True"

definition binade :: "int \<Rightarrow> int \<Rightarrow> int" where
  "binade p q =
     (let k = bitlen p - bitlen q
      in if (if 0 \<le> k then q * 2 ^ nat k \<le> p else q \<le> p * 2 ^ nat (- k))
         then k else k - 1)"

definition round_half_even :: "int \<Rightarrow> int \<Rightarrow> int" where
  "round_half_even p q =
     (let f = p div q; r = p mod q
      in if 2 * r < q then f else if q < 2 * r then f + 1
         else if even f then f else f + 1)"

definition fl :: "int \<Rightarrow> int \<Rightarrow> pyfloat" where
  "fl p q =
     (if p = 0 then Fin 0 0
      else let e = max (binade p q) (- 1022) - 52;
               m = (if 0 \<le> e then round_half_even p (q * 2 ^ nat e)
                    else round_half_even (p * 2 ^ nat (- e)) q)
           in if 0 \<le> e \<and> 2 ^ 1024 \<le> m * 2 ^ nat e then PosInf else Fin m e)"

definition fl_dyadic :: "int \<Rightarrow> int \<Rightarrow> pyfloat" where
  "fl_dyadic m e = (if 0 \<le> e then fl (m * 2 ^ nat e) 1 else fl m (2 ^ nat (- e)))"

definition float_mul :: "pyfloat \<Rightarrow> pyfloat \<Rightarrow> pyfloat" where
  "float_mul a b =
     (case (a, b) of
        (Fin m1 e1, Fin m2 e2) \<Rightarrow> fl_dyadic (m1 * m2) (e1 + e2)
      | (Fin m1 e1, PosInf) \<Rightarrow> (if m1 = 0 then NaN else PosInf)
      | (PosInf, Fin m2 e2) \<Rightarrow> (if m2 = 0 then NaN else PosInf)
      | (PosInf, PosInf) \<Rightarrow> PosInf
      | _ \<Rightarrow> NaN)"

definition float_add :: "pyfloat \<Rightarrow> pyfloat \<Rightarrow> pyfloat" where
  "float_add a b =
     (case (a, b) of
        (Fin m1 e1, Fin m2 e2) \<Rightarrow>
          (let e = min e1 e2
           in fl_dyadic (m1 * 2 ^ nat (e1 - e) + m2 * 2 ^ nat (e2 - e)) e)
      | (Fin m1 e1, PosInf) \<Rightarrow> PosInf
      | (PosInf, Fin m2 e2) \<Rightarrow> PosInf
      | (PosInf, PosInf) \<Rightarrow> PosInf
      | _ \<Rightarrow> NaN)"

text \<open>
  \<open>float(s)\<close> for a text \<open>s\<close> made of digits and dots, as the groups \<open>[\d\.]+\<close> of the
  patterns are: a decimal numeral has at least one digit and at most one dot, and its
  value \<open>decimal_digits s / 10 ^ decimal_places s\<close> is correctly rounded. Any other
  such text raises \<open>ValueError\<close>.
\<close>

definition is_decimal :: "string \<Rightarrow> bool" where
  "is_decimal s =
     (list_all (\<lambda>c. is_digit c \<or> c = CHR ''.'') s
      \<and> length (filter (\<lambda>c. c = CHR ''.'') s) \<le> 1
      \<and> filter is_digit s \<noteq> [])"

definition decimal_digits :: "string \<Rightarrow> nat" where
  "decimal_digits s = nat_of_digits (filter is_digit s)"

definition decimal_places :: "string \<Rightarrow> nat" where
  "decimal_places s = length (filter is_digit (dropWhile (\<lambda>c. c \<noteq> CHR ''.'') s))"

definition decimal_value :: "string \<Rightarrow> rat" where
  "decimal_value s = of_nat (decimal_digits s) / 10 ^ decimal_places s"

definition py_float :: "string \<Rightarrow> error + pyfloat" where
  "py_float s =
     (if is_decimal s then Inr (fl (int (decimal_digits s)) (10 ^ decimal_places s))
      else Inl ValueError)"

text \<open>\<open>int(x)\<close> of a float truncates towards zero; infinity and not-a-number raise.\<close>

definition py_int :: "pyfloat \<Rightarrow> error + int" where
  "py_int x =
     (case x of
        Fin m e \<Rightarrow>
          Inr (if 0 \<le> e then m * 2 ^ nat e
               else if 0 \<le> m then m div 2 ^ nat (- e)
               else - ((- m) div 2 ^ nat (- e)))
      | PosInf \<Rightarrow> Inl OverflowError
      | NaN \<Rightarrow> Inl ValueError)"

text \<open>
  \<open>_estimate_metric\<close>, the local function of \<open>_parse_data_complete\<close>:
  \<open>int(float(position_1) * 1e8 + float(position_2) * 1e4)\<close>.
  \<open>float_sum a b\<close> is the float that \<open>int\<close> is applied to; the literals \<open>1e8\<close> and
  \<open>1e4\<close> are floats exactly.
\<close>

definition float_sum :: "pyfloat \<Rightarrow> pyfloat \<Rightarrow> pyfloat" where
  "float_sum a b = float_add (float_mul a (Fin 100000000 0)) (float_mul b (Fin 10000 0))"

definition estimate_metric :: "string \<Rightarrow> string \<Rightarrow> error + int" where
  "estimate_metric position_1 position_2 =
     (case py_float position_1 of
        Inl e \<Rightarrow> Inl e
      | Inr a \<Rightarrow>
          (case py_float position_2 of
             Inl e \<Rightarrow> Inl e
           | Inr b \<Rightarrow> py_int (float_sum a b)))"

subsection \<open>The incremental scraper: \<open>read\<close>, \<open>_parse_data\<close>, \<open>_get_links\<close>\<close>

text \<open>
  \<open>parse_page\<close> is the body of \<open>_parse_data\<close> after \<open>driver.get(url)\<close>: it finds the
  element \<open>xw_box\<close> and builds the dictionary, the date first, then the count, where
  \<open>re.search(...).group(1)\<close> raises \<open>AttributeError\<close> when the pattern did not match.
\<close>

definition parse_page :: "string \<Rightarrow> page \<Rightarrow> error + row" where
  "parse_page url p =
     (case find_element_by_id_xw_box p of
        Inl e \<Rightarrow> Inl e
      | Inr elem \<Rightarrow>
          (case extract_clean_date (date_groups elem) of
             Inl e \<Rightarrow> Inl e
           | Inr d \<Rightarrow>
               (case total_vaccinations_group elem of
                  None \<Rightarrow> Inl AttributeError
                | Some g \<Rightarrow>
                    (case clean_count g of
                       Inl e \<Rightarrow> Inl e
                     | Inr n \<Rightarrow>
                         Inr \<lparr>date = d, total_vaccinations = Some n,
                              people_vaccinated = None, people_fully_vaccinated = None,
                              total_boosters = None, source_url = url,
                              location = None, vaccine = None\<rparr>))))"

definition parse_data :: "web \<Rightarrow> string \<Rightarrow> state \<Rightarrow> (error + row) \<times> state" where
  "parse_data w url s =
     (case driver_get w url s of
        (Inl e, s') \<Rightarrow> (Inl e, s')
      | (Inr p, s') \<Rightarrow> (parse_page url p, s'))"

definition get_links :: "page \<Rightarrow> string list" where
  "get_links p = map href (anchors p)"

text \<open>
  The loop of \<open>read\<close>: every link is fetched and parsed by \<open>_parse_data\<close> before its
  date is compared with \<open>last_update\<close>; \<open>break\<close> drops the row just parsed and all
  later links. \<open>last_update\<close> is \<open>None\<close> when the persisted file has no row (the
  maximum of an empty column is a missing value, and comparing a string with it raises
  \<open>TypeError\<close>).
\<close>

fun read_loop ::
  "web \<Rightarrow> string option \<Rightarrow> string list \<Rightarrow> dataframe \<Rightarrow> state \<Rightarrow> (error + dataframe) \<times> state"
where
  "read_loop w last_update [] data s = (Inr data, s)"
| "read_loop w last_update (link # links) data s =
     (case parse_data w link s of
        (Inl e, s') \<Rightarrow> (Inl e, s')
      | (Inr data', s') \<Rightarrow>
          (case last_update of
             None \<Rightarrow> (Inl TypeError, s')
           | Some lu \<Rightarrow>
               if date data' \<le> lu then (Inr data, s')
               else read_loop w last_update links (data @ [data']) s'))"

definition read_body :: "web \<Rightarrow> string option \<Rightarrow> state \<Rightarrow> (error + dataframe) \<times> state" where
  "read_body w last_update s =
     (case driver_get w China_source_url s of
        (Inl e, s') \<Rightarrow> (Inl e, s')
      | (Inr p, s') \<Rightarrow> read_loop w last_update (get_links p) [] s')"

definition read :: "web \<Rightarrow> string option \<Rightarrow> state \<Rightarrow> (error + dataframe) \<times> state" where
  "read w last_update s = with_get_driver (read_body w last_update) s"

subsection \<open>The complete-bulletin scraper: \<open>read_complete\<close>, \<open>_parse_data_complete\<close>\<close>

definition get_links_complete :: "page \<Rightarrow> string list" where
  "get_links_complete p = map href (filter (\<lambda>a. title_groups a \<noteq> None) (anchors p))"

text \<open>
  \<open>parse_page_complete\<close> is the body of \<open>_parse_data_complete\<close> after \<open>driver.get(url)\<close>:
  the four searches in the order of the source, each raising \<open>AttributeError\<close> on
  \<open>.groups()\<close> when the pattern (with both of its numeral groups) did not match, then the
  dictionary: the four metrics, and the date built from the constant year 2022 and the
  month and day of the \<open>doses\<close> pattern.
\<close>

definition parse_page_complete :: "string \<Rightarrow> page \<Rightarrow> error + row" where
  "parse_page_complete url p =
     (case find_element_by_id_xw_box p of
        Inl e \<Rightarrow> Inl e
      | Inr elem \<Rightarrow>
     (case doses_groups elem of
        None \<Rightarrow> Inl AttributeError
      | Some (month, day, total_vaccinations_1, total_vaccinations_2) \<Rightarrow>
     (case people_groups elem of
        None \<Rightarrow> Inl AttributeError
      | Some (people_vaccinated_1, people_vaccinated_2) \<Rightarrow>
     (case fully_groups elem of
        None \<Rightarrow> Inl AttributeError
      | Some (people_fully_vaccinated_1, people_fully_vaccinated_2) \<Rightarrow>
     (case boosters_groups elem of
        None \<Rightarrow> Inl AttributeError
      | Some (total_boosters_1, total_boosters_2) \<Rightarrow>
     (case estimate_metric total_vaccinations_1 total_vaccinations_2 of
        Inl e \<Rightarrow> Inl e
      | Inr tv \<Rightarrow>
     (case estimate_metric people_vaccinated_1 people_vaccinated_2 of
        Inl e \<Rightarrow> Inl e
      | Inr pv \<Rightarrow>
     (case estimate_metric people_fully_vaccinated_1 people_fully_vaccinated_2 of
        Inl e \<Rightarrow> Inl e
      | Inr pf \<Rightarrow>
     (case estimate_metric total_boosters_1 total_boosters_2 of
        Inl e \<Rightarrow> Inl e
      | Inr tb \<Rightarrow>
     (case clean_date (''2022'', month, day) of
        Inl e \<Rightarrow> Inl e
      | Inr d \<Rightarrow>
          Inr \<lparr>date = d, total_vaccinations = Some tv, people_vaccinated = Some pv,
               people_fully_vaccinated = Some pf, total_boosters = Some tb,
               source_url = url, location = None, vaccine = None\<rparr>))))))))))"

definition parse_data_complete :: "web \<Rightarrow> string \<Rightarrow> state \<Rightarrow> (error + row) \<times> state" where
  "parse_data_complete w url s =
     (case driver_get w url s of
        (Inl e, s') \<Rightarrow> (Inl e, s')
      | (Inr p, s') \<Rightarrow> (parse_page_complete url p, s'))"

fun read_complete_loop ::
  "web \<Rightarrow> string list \<Rightarrow> dataframe \<Rightarrow> state \<Rightarrow> (error + dataframe) \<times> state"
where
  "read_complete_loop w [] records s = (Inr records, s)"
| "read_complete_loop w (link # links) records s =
     (case parse_data_complete w link s of
        (Inl e, s') \<Rightarrow> (Inl e, s')
      | (Inr r, s') \<Rightarrow> read_complete_loop w links (records @ [r]) s')"

definition read_complete_body :: "web \<Rightarrow> state \<Rightarrow> (error + dataframe) \<times> state" where
  "read_complete_body w s =
     (case driver_get w China_source_url_complete s of
        (Inl e, s') \<Rightarrow> (Inl e, s')
      | (Inr p, s') \<Rightarrow>
          read_complete_loop w (take num_links_complete (get_links_complete p)) [] s')"

definition read_complete :: "web \<Rightarrow> state \<Rightarrow> (error + dataframe) \<times> state" where
  "read_complete w s = with_get_driver (read_complete_body w) s"

subsection \<open>The pipeline\<close>

definition pipe_metadata :: "dataframe \<Rightarrow> dataframe" where
  "pipe_metadata df = map (\<lambda>r. r\<lparr>location := Some China_location\<rparr>) df"

definition pipe_vaccine :: "dataframe \<Rightarrow> dataframe" where
  "pipe_vaccine df = map (\<lambda>r. r\<lparr>vaccine := Some China_vaccine\<rparr>) df"

definition pipeline :: "dataframe \<Rightarrow> dataframe" where
  "pipeline df = pipe_vaccine (pipe_metadata df)"

subsection \<open>\<open>export\<close>: transform, merge, attach\<close>

text \<open>
  The transform step of \<open>export\<close>: a frame goes through the pipeline only when it is not
  empty.
\<close>

definition transform :: "dataframe \<Rightarrow> dataframe" where
  "transform df = (if df \<noteq> [] then pipeline df else df)"

text \<open>
  The merge step of \<open>export\<close>. When the incremental frame is empty the result is the
  complete frame. Otherwise the rows of the incremental frame whose date is in the
  complete frame are masked out and the rest is concatenated after the complete frame.
  An empty complete frame was built from an empty list of records and has no column, so
  its attribute \<open>.date\<close> raises \<open>AttributeError\<close>.
\<close>

definition merge_frames :: "dataframe \<Rightarrow> dataframe \<Rightarrow> error + dataframe" where
  "merge_frames df df_complete =
     (if df = [] then Inr df_complete
      else if df_complete = [] then Inl AttributeError
      else Inr (df_complete @ filter (\<lambda>r. date r \<notin> set (map date df_complete)) df))"

text \<open>
  Modelled from the spec: \<open>load_datafile\<close> and \<open>export_datafile\<close> (the base class
  \<open>CountryVaxBase\<close>) are not among the sources. The store's watermark is the maximum date
  on file, or a no-history value on the first run; \<open>attach\<close> keeps the new records and
  the prior records whose date the new records do not cover, and persists the result.
\<close>

definition load_datafile :: "state \<Rightarrow> dataframe" where
  "load_datafile s = datafile s"

definition date_max :: "dataframe \<Rightarrow> string option" where
  "date_max df = (case df of [] \<Rightarrow> None | r # rs \<Rightarrow> Some (foldl max (date r) (map date rs)))"

definition attach :: "dataframe \<Rightarrow> dataframe \<Rightarrow> dataframe" where
  "attach df prior = df @ filter (\<lambda>r. date r \<notin> set (map date df)) prior"

definition export_datafile :: "dataframe \<Rightarrow> state \<Rightarrow> state" where
  "export_datafile df s = s\<lparr>datafile := attach df (datafile s)\<rparr>"

definition export :: "web \<Rightarrow> state \<Rightarrow> (error + unit) \<times> state" where
  "export w s =
     (case read w (date_max (load_datafile s)) s of
        (Inl e, s1) \<Rightarrow> (Inl e, s1)
      | (Inr df, s1) \<Rightarrow>
          (case read_complete w s1 of
             (Inl e, s2) \<Rightarrow> (Inl e, s2)
           | (Inr df_complete, s2) \<Rightarrow>
               (case merge_frames (transform df) (transform df_complete) of
                  Inl e \<Rightarrow> (Inl e, s2)
                | Inr merged \<Rightarrow> (Inr (), export_datafile merged s2))))"

text \<open>
  The reconciliation of the specification, \<open>reconcile(incremental, complete, prior)\<close>:
  the transform and merge steps of \<open>export\<close> followed by the store's \<open>attach\<close>.
\<close>

definition reconcile :: "dataframe \<Rightarrow> dataframe \<Rightarrow> dataframe \<Rightarrow> error + dataframe" where
  "reconcile df df_complete prior =
     (case merge_frames (transform df) (transform df_complete) of
        Inl e \<Rightarrow> Inl e
      | Inr merged \<Rightarrow> Inr (attach merged prior))"

subsection \<open>What a link yields\<close>

text \<open>
  The result of \<open>_parse_data\<close> and of \<open>_parse_data_complete\<close> for a link depends on the
  web alone: the navigation may time out, otherwise the page is parsed.
\<close>

definition page_row :: "web \<Rightarrow> string \<Rightarrow> error + row" where
  "page_row w url =
     (case w url of Timeout \<Rightarrow> Inl TimeoutException | Loaded p \<Rightarrow> parse_page url p)"

definition page_row_complete :: "web \<Rightarrow> string \<Rightarrow> error + row" where
  "page_row_complete w url =
     (case w url of Timeout \<Rightarrow> Inl TimeoutException | Loaded p \<Rightarrow> parse_page_complete url p)"

subsection \<open>Example inputs\<close>

text \<open>
  The end-to-end scenario of the specification: one prior record for 2022-01-01, one
  incremental record for 2022-01-03 and one complete record for 2022-01-01.
\<close>

definition scenario_prior :: dataframe where
  "scenario_prior =
     [\<lparr>date = ''2022-01-01'', total_vaccinations = Some 100, people_vaccinated = None,
       people_fully_vaccinated = None, total_boosters = None, source_url = ''prior'',
       location = Some China_location, vaccine = Some China_vaccine\<rparr>]"

definition scenario_incremental :: dataframe where
  "scenario_incremental =
     [\<lparr>date = ''2022-01-03'', total_vaccinations = Some 130, people_vaccinated = None,
       people_fully_vaccinated = None, total_boosters = None, source_url = ''bulletin'',
       location = None, vaccine = None\<rparr>]"

definition scenario_complete :: dataframe where
  "scenario_complete =
     [\<lparr>date = ''2022-01-01'', total_vaccinations = Some 110, people_vaccinated = Some 90,
       people_fully_vaccinated = Some 80, total_boosters = Some 5, source_url = ''report'',
       location = None, vaccine = None\<rparr>]"

text \<open>
  Two complete bulletins that quote the same day, as two press conferences of one week
  do (and as bulletins of the same day of different years do, the year being fixed).
\<close>

definition same_day_complete :: dataframe where
  "same_day_complete =
     [\<lparr>date = ''2022-03-05'', total_vaccinations = Some 315000000, people_vaccinated = Some 20,
       people_fully_vaccinated = Some 10, total_boosters = Some 5, source_url = ''report_b'',
       location = None, vaccine = None\<rparr>,
      \<lparr>date = ''2022-03-05'', total_vaccinations = Some 314000000, people_vaccinated = Some 19,
       people_fully_vaccinated = Some 9, total_boosters = Some 4, source_url = ''report_a'',
       location = None, vaccine = None\<rparr>]"

text \<open>
  A small web. The bulletin listing links three bulletins, newest first, for 3, 2 and
  1 January 2022. The press-conference listing links a notice whose title does not match
  and four comprehensive reports, newest first; the second and third report are
  transcripts of December 2021. \<open>bulletin\<close> is a bulletin page with the groups of the
  date pattern and the text of the count pattern; \<open>report\<close> is a report page with the
  month and day of the doses pattern and the groups of the people pattern.
\<close>

definition bulletin :: "string \<times> string \<times> string \<Rightarrow> string \<Rightarrow> page" where
  "bulletin ymd count =
     \<lparr>anchors = [],
      xw_box = Some \<lparr>date_groups = Some ymd, total_vaccinations_group = Some count,
                     doses_groups = None, people_groups = None, fully_groups = None,
                     boosters_groups = None\<rparr>\<rparr>"

definition report :: "string \<times> string \<Rightarrow> (string \<times> string) option \<Rightarrow> page" where
  "report md people =
     \<lparr>anchors = [],
      xw_box = Some \<lparr>date_groups = None, total_vaccinations_group = None,
                     doses_groups = Some (fst md, snd md, ''3'', ''1500''),
                     people_groups = people, fully_groups = Some (''12'', ''5000''),
                     boosters_groups = Some (''7'', ''9000'')\<rparr>\<rparr>"

definition bulletin_listing :: page where
  "bulletin_listing =
     \<lparr>anchors = [\<lparr>href = ''bulletin3'', title_groups = None\<rparr>,
                 \<lparr>href = ''bulletin2'', title_groups = None\<rparr>,
                 \<lparr>href = ''bulletin1'', title_groups = None\<rparr>],
      xw_box = None\<rparr>"

definition report_listing :: page where
  "report_listing =
     \<lparr>anchors = [\<lparr>href = ''notice'', title_groups = None\<rparr>,
                 \<lparr>href = ''report4'', title_groups = Some (''2022'', ''1'', ''4'')\<rparr>,
                 \<lparr>href = ''report3'', title_groups = Some (''2021'', ''12'', ''30'')\<rparr>,
                 \<lparr>href = ''report2'', title_groups = Some (''2021'', ''12'', ''23'')\<rparr>,
                 \<lparr>href = ''report1'', title_groups = Some (''2021'', ''12'', ''16'')\<rparr>],
      xw_box = None\<rparr>"

definition example_web :: web where
  "example_web url =
     (if url = China_source_url then Loaded bulletin_listing
      else if url = China_source_url_complete then Loaded report_listing
      else if url = ''bulletin3'' then Loaded (bulletin (''2022'', ''1'', ''3'') ''303842.5'')
      else if url = ''bulletin2'' then Loaded (bulletin (''2022'', ''1'', ''2'') ''303120.1'')
      else if url = ''bulletin1'' then Loaded (bulletin (''2022'', ''1'', ''1'') ''302591.7'')
      else if url = ''report4'' then Loaded (report (''1'', ''3'') (Some (''12'', ''8000'')))
      else if url = ''report3'' then Loaded (report (''12'', ''29'') (Some (''12'', ''8000'')))
      else if url = ''report2'' then Loaded (report (''12'', ''22'') (Some (''12'', ''8000'')))
      else Timeout)"

text \<open>The same web, but the newest report lacks the numeral groups of the people pattern.\<close>

definition broken_web :: web where
  "broken_web url =
     (if url = ''report4'' then Loaded (report (''1'', ''3'') None) else example_web url)"

definition bulletin_row :: "string \<Rightarrow> int \<Rightarrow> string \<Rightarrow> row" where
  "bulletin_row d n url =
     \<lparr>date = d, total_vaccinations = Some n, people_vaccinated = None,
      people_fully_vaccinated = None, total_boosters = None, source_url = url,
      location = None, vaccine = None\<rparr>"

definition report_row :: "string \<Rightarrow> string \<Rightarrow> row" where
  "report_row d url =
     \<lparr>date = d, total_vaccinations = Some 315000000, people_vaccinated = Some 1280000000,
      people_fully_vaccinated = Some 1250000000, total_boosters = Some 790000000,
      source_url = url, location = None, vaccine = None\<rparr>"

definition start_state :: state where
  "start_state =
     \<lparr>datafile = pipeline [bulletin_row ''2022-01-02'' 3031201 ''bulletin2''],
      fetched = [], acquired = 0, released = 0\<rparr>"

section \<open>Properties\<close>

subsection \<open>The pipeline and the merge\<close>

lemma pipeline_map:
  "pipeline df =
     map (\<lambda>r. r\<lparr>location := Some China_location, vaccine := Some China_vaccine\<rparr>) df"
  by (simp add: pipeline_def pipe_vaccine_def pipe_metadata_def)

lemma dates_pipeline: "map date (pipeline df) = map date df"
  by (simp add: pipeline_map)

lemma dates_transform: "map date (transform df) = map date df"
  by (simp add: transform_def dates_pipeline)

lemma transform_Nil: "transform [] = []"
  by (simp add: transform_def)

lemma attach_attach: "attach m (attach m p) = attach m p"
  by (simp add: attach_def)

lemma attach_Nil: "attach [] p = p"
  by (simp add: attach_def)

lemma merge_frames_Nil: "merge_frames [] dc = Inr dc"
  by (simp add: merge_frames_def)

lemma merge_frames_Inr:
  "merge_frames df dc = Inr m \<Longrightarrow> m = dc @ filter (\<lambda>r. date r \<notin> set (map date dc)) df"
  by (auto simp: merge_frames_def split: if_splits)

lemma dates_filter:
  "map date (filter (\<lambda>x. date x \<notin> S) xs) = filter (\<lambda>d. d \<notin> S) (map date xs)"
  by (induction xs) auto

lemma reconcile_Inr:
  assumes "reconcile df dc prior = Inr r"
  shows "r = transform dc @ filter (\<lambda>x. date x \<notin> set (map date dc)) (transform df)
             @ filter (\<lambda>x. date x \<notin> set (map date dc) \<and> date x \<notin> set (map date df)) prior"
proof -
  from assms obtain m where m: "merge_frames (transform df) (transform dc) = Inr m"
    and r: "r = attach m prior"
    by (auto simp: reconcile_def split: sum.splits)
  have m': "m = transform dc @ filter (\<lambda>x. date x \<notin> set (map date dc)) (transform df)"
    using merge_frames_Inr[OF m] by (simp only: dates_transform)
  have "map date m = map date dc @ filter (\<lambda>d. d \<notin> set (map date dc)) (map date df)"
    unfolding m' by (simp only: map_append dates_filter dates_transform)
  then have "set (map date m) = set (map date dc) \<union> set (map date df)"
    by auto
  then have "filter (\<lambda>x. date x \<notin> set (map date m)) prior
     = filter (\<lambda>x. date x \<notin> set (map date dc) \<and> date x \<notin> set (map date df)) prior"
    by simp
  then show ?thesis unfolding r attach_def m' by simp
qed

text \<open>
  C9. The pipeline sets the location of every row to \<open>China\<close> and its vaccine to the
  fixed list of vaccines, and leaves the date, the four counts and the source URL of
  every row as they were; it neither drops nor adds a row.
\<close>

theorem pipeline_sets_metadata_only:
  "map location (pipeline df) = replicate (length df) (Some ''China'')
   \<and> map vaccine (pipeline df)
       = replicate (length df)
           (Some ''CanSino, Sinopharm/Beijing, Sinopharm/Wuhan, Sinovac, ZF2001'')
   \<and> map date (pipeline df) = map date df
   \<and> map total_vaccinations (pipeline df) = map total_vaccinations df
   \<and> map people_vaccinated (pipeline df) = map people_vaccinated df
   \<and> map people_fully_vaccinated (pipeline df) = map people_fully_vaccinated df
   \<and> map total_boosters (pipeline df) = map total_boosters df
   \<and> map source_url (pipeline df) = map source_url df"
  by (simp add: pipeline_map China_location_def China_vaccine_def map_replicate_const comp_def)

text \<open>
  C4. Reconciliation is idempotent: reconciling the two streams again with the result
  of a reconciliation as the prior dataset gives that result again (and fails again
  where the first reconciliation failed); and reconciling two empty streams with a
  prior dataset returns the prior dataset unchanged.
\<close>

theorem reconcile_idempotent:
  "(case reconcile df df_complete prior of
      Inl e \<Rightarrow> Inl e
    | Inr r \<Rightarrow> reconcile df df_complete r) = reconcile df df_complete prior
   \<and> reconcile [] [] prior = Inr prior"
  by (simp add: reconcile_def attach_attach attach_Nil merge_frames_Nil transform_Nil
      split: sum.splits)

text \<open>
  C1, as amended. Whenever reconciliation returns a result, the result is the complete
  rows (with their metadata), followed by the incremental rows whose date is not in the
  complete stream, followed by the prior rows whose date is in neither stream; so for a
  date of the complete stream the rows of the result are exactly the complete rows of
  that date, whole. The result has one row per date when no date occurs twice within
  the complete stream, within the incremental stream or within the prior dataset.
\<close>

theorem reconcile_result:
  "reconcile df df_complete prior = Inr r \<Longrightarrow>
     r = transform df_complete
           @ filter (\<lambda>x. date x \<notin> set (map date df_complete)) (transform df)
           @ filter (\<lambda>x. date x \<notin> set (map date df_complete) \<and> date x \<notin> set (map date df))
               prior
     \<and> (\<forall>d \<in> set (map date df_complete).
           filter (\<lambda>x. date x = d) r = filter (\<lambda>x. date x = d) (transform df_complete))
     \<and> (distinct (map date df_complete) \<and> distinct (map date df) \<and> distinct (map date prior)
          \<longrightarrow> distinct (map date r))"
proof -
  assume a: "reconcile df df_complete prior = Inr r"
  note eq = reconcile_Inr[OF a]
  have 1: "\<forall>d \<in> set (map date df_complete).
           filter (\<lambda>x. date x = d) r = filter (\<lambda>x. date x = d) (transform df_complete)"
    unfolding eq by (auto simp: filter_empty_conv)
  have 2: "distinct (map date r)"
    if "distinct (map date df_complete)" "distinct (map date df)" "distinct (map date prior)"
  proof -
    have d: "map date r = map date df_complete
        @ filter (\<lambda>d. d \<notin> set (map date df_complete)) (map date df)
        @ map date (filter (\<lambda>x. date x \<notin> set (map date df_complete)
                                 \<and> date x \<notin> set (map date df)) prior)"
      unfolding eq by (simp only: map_append dates_filter dates_transform)
    show ?thesis
      unfolding d using that by (auto simp: distinct_map_filter image_iff)
  qed
  show ?thesis using eq 1 2 by blast
qed

lemma scenario_reconciled:
  "reconcile scenario_incremental scenario_complete scenario_prior
     = Inr (pipeline scenario_complete @ pipeline scenario_incremental)"
  by (simp add: reconcile_def merge_frames_def transform_def attach_def pipeline_map
      scenario_incremental_def scenario_complete_def scenario_prior_def)

theorem reconcile_result_witness:
  "reconcile scenario_incremental scenario_complete scenario_prior
     = Inr (pipeline scenario_complete @ pipeline scenario_incremental)
   \<and> filter (\<lambda>x. date x = ''2022-01-01'')
        (pipeline scenario_complete @ pipeline scenario_incremental)
       = pipeline scenario_complete
   \<and> distinct (map date (pipeline scenario_complete @ pipeline scenario_incremental))"
  using reconcile_result [OF scenario_reconciled] scenario_reconciled
  by (simp add: transform_def pipeline_map
      scenario_incremental_def scenario_complete_def scenario_prior_def)

theorem reconcile_duplicate_date_counterexample:
  "reconcile [] same_day_complete [] = Inr (pipeline same_day_complete)
   \<and> map date (pipeline same_day_complete) = [''2022-03-05'', ''2022-03-05'']
   \<and> \<not> distinct (map date (pipeline same_day_complete))"
  by (simp add: reconcile_def merge_frames_def transform_def attach_def pipeline_map
      same_day_complete_def)

subsection \<open>State: what the scrapers change\<close>

lemma parse_data_eq:
  "parse_data w url s = (page_row w url, s\<lparr>fetched := fetched s @ [url]\<rparr>)"
  by (simp add: parse_data_def driver_get_def page_row_def split: nav.splits)

lemma parse_data_complete_eq:
  "parse_data_complete w url s = (page_row_complete w url, s\<lparr>fetched := fetched s @ [url]\<rparr>)"
  by (simp add: parse_data_complete_def driver_get_def page_row_complete_def split: nav.splits)

lemma read_loop_state:
  "read_loop w lu links data s = (r, s') \<Longrightarrow>
     datafile s' = datafile s \<and> acquired s' = acquired s \<and> released s' = released s"
proof (induction links arbitrary: data s)
  case Nil
  then show ?case by auto
next
  case (Cons link links)
  show ?case
  proof (cases "page_row w link")
    case (Inl e)
    with Cons.prems show ?thesis by (auto simp: parse_data_eq)
  next
    case (Inr d)
    show ?thesis
    proof (cases lu)
      case None
      with Inr Cons.prems show ?thesis by (auto simp: parse_data_eq)
    next
      case (Some l)
      show ?thesis
      proof (cases "date d \<le> l")
        case True
        with Inr Some Cons.prems show ?thesis by (auto simp: parse_data_eq)
      next
        case False
        with Inr Some Cons.prems
        have "read_loop w lu links (data @ [d]) (s\<lparr>fetched := fetched s @ [link]\<rparr>) = (r, s')"
          by (simp add: parse_data_eq)
        from Cons.IH[OF this] show ?thesis by simp
      qed
    qed
  qed
qed

lemma read_complete_loop_state:
  "read_complete_loop w links records s = (r, s') \<Longrightarrow>
     datafile s' = datafile s \<and> acquired s' = acquired s \<and> released s' = released s"
proof (induction links arbitrary: records s)
  case Nil
  then show ?case by auto
next
  case (Cons link links)
  show ?case
  proof (cases "page_row_complete w link")
    case (Inl e)
    with Cons.prems show ?thesis by (auto simp: parse_data_complete_eq)
  next
    case (Inr d)
    with Cons.prems
    have "read_complete_loop w links (records @ [d]) (s\<lparr>fetched := fetched s @ [link]\<rparr>) = (r, s')"
      by (simp add: parse_data_complete_eq)
    from Cons.IH[OF this] show ?thesis by simp
  qed
qed

lemma read_body_state:
  "read_body w lu s = (r, s') \<Longrightarrow>
     datafile s' = datafile s \<and> acquired s' = acquired s \<and> released s' = released s"
  by (auto simp: read_body_def driver_get_def split: nav.splits dest: read_loop_state)

lemma read_complete_body_state:
  "read_complete_body w s = (r, s') \<Longrightarrow>
     datafile s' = datafile s \<and> acquired s' = acquired s \<and> released s' = released s"
  by (auto simp: read_complete_body_def driver_get_def split: nav.splits dest: read_complete_loop_state)

lemma with_get_driver_state:
  assumes "\<And>t r t'. body t = (r, t') \<Longrightarrow>
     datafile t' = datafile t \<and> acquired t' = acquired t \<and> released t' = released t"
    and "with_get_driver body s = (r, s')"
  shows "datafile s' = datafile s \<and> acquired s' = acquired s + 1 \<and> released s' = released s + 1"
proof -
  obtain r0 t where b: "body (s\<lparr>acquired := acquired s + 1\<rparr>) = (r0, t)"
    by (cases "body (s\<lparr>acquired := acquired s + 1\<rparr>)") auto
  from assms(1)[OF b] assms(2) b show ?thesis
    by (auto simp: with_get_driver_def)
qed

lemma read_state:
  "read w lu s = (r, s') \<Longrightarrow>
     datafile s' = datafile s \<and> acquired s' = acquired s + 1 \<and> released s' = released s + 1"
  unfolding read_def by (rule with_get_driver_state[where body = "read_body w lu"]) (auto dest: read_body_state)

lemma read_complete_state:
  "read_complete w s = (r, s') \<Longrightarrow>
     datafile s' = datafile s \<and> acquired s' = acquired s + 1 \<and> released s' = released s + 1"
  unfolding read_complete_def by (rule with_get_driver_state[where body = "read_complete_body w"]) (auto dest: read_complete_body_state)

subsection \<open>The loops in terms of what the links yield\<close>

lemma read_loop_stop:
  assumes "map (page_row w) pre = map Inr rows"
    and "\<forall>r \<in> set rows. lu < date r"
    and "page_row w link = Inr rk"
    and "date rk \<le> lu"
  shows "read_loop w (Some lu) (pre @ link # post) data s
           = (Inr (data @ rows), s\<lparr>fetched := fetched s @ pre @ [link]\<rparr>)"
  using assms(1,2)
proof (induction pre arbitrary: rows data s)
  case Nil
  then show ?case using assms(3,4) by (simp add: parse_data_eq)
next
  case (Cons l pre)
  then obtain r rows' where rows: "rows = r # rows'" and r: "page_row w l = Inr r"
    and rest: "map (page_row w) pre = map Inr rows'"
    by (cases rows) auto
  from Cons.prems(2) rows have gt: "\<not> date r \<le> lu" and all: "\<forall>r \<in> set rows'. lu < date r"
    by auto
  show ?case
    using Cons.IH[OF rest all, of "data @ [r]" "s\<lparr>fetched := fetched s @ [l]\<rparr>"] r gt rows
    by (simp add: parse_data_eq)
qed

lemma read_loop_all:
  assumes "map (page_row w) links = map Inr rows"
    and "\<forall>r \<in> set rows. lu < date r"
  shows "read_loop w (Some lu) links data s
           = (Inr (data @ rows), s\<lparr>fetched := fetched s @ links\<rparr>)"
  using assms
proof (induction links arbitrary: rows data s)
  case Nil
  then show ?case by simp
next
  case (Cons l links)
  then obtain r rows' where rows: "rows = r # rows'" and r: "page_row w l = Inr r"
    and rest: "map (page_row w) links = map Inr rows'"
    by (cases rows) auto
  from Cons.prems(2) rows have gt: "\<not> date r \<le> lu" and all: "\<forall>r \<in> set rows'. lu < date r"
    by auto
  show ?case
    using Cons.IH[OF rest all, of "data @ [r]" "s\<lparr>fetched := fetched s @ [l]\<rparr>"] r gt rows
    by (simp add: parse_data_eq)
qed

lemma read_complete_loop_Inr:
  "map (page_row_complete w) links = map Inr rows \<Longrightarrow>
     read_complete_loop w links records s
       = (Inr (records @ rows), s\<lparr>fetched := fetched s @ links\<rparr>)"
proof (induction links arbitrary: rows records s)
  case Nil
  then show ?case by simp
next
  case (Cons l links)
  then obtain r rows' where rows: "rows = r # rows'" and r: "page_row_complete w l = Inr r"
    and rest: "map (page_row_complete w) links = map Inr rows'"
    by (cases rows) auto
  show ?case
    using Cons.IH[OF rest, of "records @ [r]" "s\<lparr>fetched := fetched s @ [l]\<rparr>"] r rows
    by (simp add: parse_data_complete_eq)
qed

lemma read_complete_loop_Inl:
  "map (page_row_complete w) pre = map Inr rows \<Longrightarrow> page_row_complete w link = Inl e \<Longrightarrow>
     read_complete_loop w (pre @ link # post) records s
       = (Inl e, s\<lparr>fetched := fetched s @ pre @ [link]\<rparr>)"
proof (induction pre arbitrary: rows records s)
  case Nil
  then show ?case by (simp add: parse_data_complete_eq)
next
  case (Cons l pre)
  then obtain r rows' where rows: "rows = r # rows'" and r: "page_row_complete w l = Inr r"
    and rest: "map (page_row_complete w) pre = map Inr rows'"
    by (cases rows) auto
  show ?case
    using Cons.IH[OF rest Cons.prems(2), of "records @ [r]" "s\<lparr>fetched := fetched s @ [l]\<rparr>"] r
    by (simp add: parse_data_complete_eq)
qed

lemma read_complete_loop_rows:
  "read_complete_loop w links records s = (Inr rs, s') \<Longrightarrow>
     \<exists>rows. map (page_row_complete w) links = map Inr rows \<and> rs = records @ rows
       \<and> s' = s\<lparr>fetched := fetched s @ links\<rparr>"
proof (induction links arbitrary: records s)
  case Nil
  then show ?case by auto
next
  case (Cons l links)
  show ?case
  proof (cases "page_row_complete w l")
    case (Inl e)
    with Cons.prems show ?thesis by (simp add: parse_data_complete_eq)
  next
    case (Inr r)
    with Cons.prems
    have "read_complete_loop w links (records @ [r]) (s\<lparr>fetched := fetched s @ [l]\<rparr>) = (Inr rs, s')"
      by (simp add: parse_data_complete_eq)
    from Cons.IH[OF this] obtain rows where
      "map (page_row_complete w) links = map Inr rows" "rs = (records @ [r]) @ rows"
      "s' = s\<lparr>fetched := fetched s @ [l]\<rparr>\<lparr>fetched := fetched (s\<lparr>fetched := fetched s @ [l]\<rparr>) @ links\<rparr>"
      by blast
    with Inr show ?thesis by (intro exI[of _ "r # rows"]) simp
  qed
qed

subsection \<open>Evaluation on the example web\<close>

lemmas float_ev = is_decimal_def decimal_digits_def decimal_places_def is_digit_def
  nat_of_digits_def digit_value_def py_float_def fl_def binade_def round_half_even_def Let_def
  compute_bitlen fl_dyadic_def float_mul_def float_add_def float_sum_def py_int_def

lemma estimate_3_1500: "estimate_metric ''3'' ''1500'' = Inr 315000000"
  by (simp add: estimate_metric_def float_ev)
lemma estimate_12_8000: "estimate_metric ''12'' ''8000'' = Inr 1280000000"
  by (simp add: estimate_metric_def float_ev)
lemma estimate_12_5000: "estimate_metric ''12'' ''5000'' = Inr 1250000000"
  by (simp add: estimate_metric_def float_ev)
lemma estimate_7_9000: "estimate_metric ''7'' ''9000'' = Inr 790000000"
  by (simp add: estimate_metric_def float_ev)

lemmas date_ev = clean_date_def extract_clean_date_def is_digit_def nat_of_digits_def
  digit_value_def days_in_month_def leap_year_def pad2_def

lemma clean_date_jan3: "clean_date (''2022'', ''1'', ''3'') = Inr ''2022-01-03''"
  by (simp add: date_ev)
lemma clean_date_dec29: "clean_date (''2022'', ''12'', ''29'') = Inr ''2022-12-29''"
  by (simp add: date_ev)
lemma clean_count_bulletin3: "clean_count ''303842.5'' = Inr 3038425"
  by (simp add: clean_count_def is_digit_def nat_of_digits_def digit_value_def)

lemma report4_row: "page_row_complete example_web ''report4'' = Inr (report_row ''2022-01-03'' ''report4'')"
  by (simp add: page_row_complete_def example_web_def China_source_url_def China_source_url_complete_def
     parse_page_complete_def report_def find_element_by_id_xw_box_def
     estimate_3_1500 estimate_12_8000 estimate_12_5000 estimate_7_9000 clean_date_jan3 report_row_def)

lemma bulletin3_row: "page_row example_web ''bulletin3'' = Inr (bulletin_row ''2022-01-03'' 3038425 ''bulletin3'')"
  by (simp add: page_row_def example_web_def China_source_url_def China_source_url_complete_def
     parse_page_def bulletin_def find_element_by_id_xw_box_def extract_clean_date_def clean_date_jan3 clean_count_bulletin3 bulletin_row_def)


lemmas web_ev = example_web_def broken_web_def China_source_url_def China_source_url_complete_def

lemma clean_date_jan2: "clean_date (''2022'', ''1'', ''2'') = Inr ''2022-01-02''"
  by (simp add: date_ev)

lemma clean_date_jan1: "clean_date (''2022'', ''1'', ''1'') = Inr ''2022-01-01''"
  by (simp add: date_ev)

lemma clean_date_dec22: "clean_date (''2022'', ''12'', ''22'') = Inr ''2022-12-22''"
  by (simp add: date_ev)

lemma clean_count_bulletin2: "clean_count ''303120.1'' = Inr 3031201"
  by (simp add: clean_count_def is_digit_def nat_of_digits_def digit_value_def)

lemma clean_count_bulletin1: "clean_count ''302591.7'' = Inr 3025917"
  by (simp add: clean_count_def is_digit_def nat_of_digits_def digit_value_def)

lemma parse_bulletin:
  "clean_date ymd = Inr d \<Longrightarrow> clean_count c = Inr n \<Longrightarrow>
     parse_page url (bulletin ymd c) = Inr (bulletin_row d n url)"
  by (simp add: parse_page_def bulletin_def find_element_by_id_xw_box_def
      extract_clean_date_def bulletin_row_def)

lemma parse_report:
  "clean_date (''2022'', month, day) = Inr d \<Longrightarrow>
     parse_page_complete url (report (month, day) (Some (''12'', ''8000''))) = Inr (report_row d url)"
  by (simp add: parse_page_complete_def report_def find_element_by_id_xw_box_def
      estimate_3_1500 estimate_12_8000 estimate_12_5000 estimate_7_9000 report_row_def)

lemma parse_report_broken:
  "parse_page_complete url (report md None) = Inl AttributeError"
  by (simp add: parse_page_complete_def report_def find_element_by_id_xw_box_def)

lemma example_bulletins:
  "map (page_row example_web) [''bulletin3'', ''bulletin2'', ''bulletin1'']
     = map Inr [bulletin_row ''2022-01-03'' 3038425 ''bulletin3'',
                bulletin_row ''2022-01-02'' 3031201 ''bulletin2'',
                bulletin_row ''2022-01-01'' 3025917 ''bulletin1'']"
  by (simp add: page_row_def web_ev parse_bulletin clean_date_jan3 clean_date_jan2
      clean_date_jan1 clean_count_bulletin3 clean_count_bulletin2 clean_count_bulletin1)

lemma broken_bulletins:
  "map (page_row broken_web) [''bulletin3'', ''bulletin2'', ''bulletin1'']
     = map Inr [bulletin_row ''2022-01-03'' 3038425 ''bulletin3'',
                bulletin_row ''2022-01-02'' 3031201 ''bulletin2'',
                bulletin_row ''2022-01-01'' 3025917 ''bulletin1'']"
  by (simp add: page_row_def web_ev parse_bulletin clean_date_jan3 clean_date_jan2
      clean_date_jan1 clean_count_bulletin3 clean_count_bulletin2 clean_count_bulletin1)

lemma example_reports:
  "map (page_row_complete example_web) [''report4'', ''report3'', ''report2'']
     = map Inr [report_row ''2022-01-03'' ''report4'', report_row ''2022-12-29'' ''report3'',
                report_row ''2022-12-22'' ''report2'']"
  by (simp add: page_row_complete_def web_ev parse_report clean_date_jan3 clean_date_dec29
      clean_date_dec22)

lemma broken_report4: "page_row_complete broken_web ''report4'' = Inl AttributeError"
  by (simp add: page_row_complete_def web_ev parse_report_broken)

lemma example_listings:
  "example_web China_source_url = Loaded bulletin_listing"
  "example_web China_source_url_complete = Loaded report_listing"
  "broken_web China_source_url = Loaded bulletin_listing"
  "broken_web China_source_url_complete = Loaded report_listing"
  by (simp_all add: web_ev)

lemma example_links:
  "get_links bulletin_listing = [''bulletin3'', ''bulletin2'', ''bulletin1'']"
  "take num_links_complete (get_links_complete report_listing) = [''report4'', ''report3'', ''report2'']"
  by (simp_all add: get_links_def get_links_complete_def bulletin_listing_def report_listing_def
      num_links_complete_def)

lemma read_example:
  "read example_web (Some ''2022-01-02'') s
     = (Inr [bulletin_row ''2022-01-03'' 3038425 ''bulletin3''],
        s\<lparr>fetched := fetched s @ [China_source_url, ''bulletin3'', ''bulletin2''],
          acquired := acquired s + 1, released := released s + 1\<rparr>)"
proof -
  have "read_loop example_web (Some ''2022-01-02'') ([''bulletin3''] @ ''bulletin2'' # [''bulletin1'']) [] t
          = (Inr ([] @ [bulletin_row ''2022-01-03'' 3038425 ''bulletin3'']),
             t\<lparr>fetched := fetched t @ [''bulletin3''] @ [''bulletin2'']\<rparr>)" for t
    using example_bulletins
    by (intro read_loop_stop[where rk = "bulletin_row ''2022-01-02'' 3031201 ''bulletin2''"])
       (simp_all add: bulletin_row_def)
  then show ?thesis
    by (simp add: read_def with_get_driver_def read_body_def driver_get_def example_listings
        example_links)
qed

lemma read_broken:
  "read broken_web (Some ''2022-01-02'') s
     = (Inr [bulletin_row ''2022-01-03'' 3038425 ''bulletin3''],
        s\<lparr>fetched := fetched s @ [China_source_url, ''bulletin3'', ''bulletin2''],
          acquired := acquired s + 1, released := released s + 1\<rparr>)"
proof -
  have "read_loop broken_web (Some ''2022-01-02'') ([''bulletin3''] @ ''bulletin2'' # [''bulletin1'']) [] t
          = (Inr ([] @ [bulletin_row ''2022-01-03'' 3038425 ''bulletin3'']),
             t\<lparr>fetched := fetched t @ [''bulletin3''] @ [''bulletin2'']\<rparr>)" for t
    using broken_bulletins
    by (intro read_loop_stop[where rk = "bulletin_row ''2022-01-02'' 3031201 ''bulletin2''"])
       (simp_all add: bulletin_row_def)
  then show ?thesis
    by (simp add: read_def with_get_driver_def read_body_def driver_get_def example_listings
        example_links)
qed

lemma read_complete_example:
  "read_complete example_web s
     = (Inr [report_row ''2022-01-03'' ''report4'', report_row ''2022-12-29'' ''report3'',
             report_row ''2022-12-22'' ''report2''],
        s\<lparr>fetched := fetched s @ [China_source_url_complete, ''report4'', ''report3'', ''report2''],
          acquired := acquired s + 1, released := released s + 1\<rparr>)"
proof -
  note loop = read_complete_loop_Inr[OF example_reports, of "[]"]
  show ?thesis
    by (simp add: read_complete_def with_get_driver_def read_complete_body_def driver_get_def
        example_listings example_links loop del: read_complete_loop.simps)
qed

lemma read_complete_broken:
  "read_complete broken_web s
     = (Inl AttributeError,
        s\<lparr>fetched := fetched s @ [China_source_url_complete, ''report4''],
          acquired := acquired s + 1, released := released s + 1\<rparr>)"
proof -
  have "read_complete_loop broken_web ([] @ ''report4'' # [''report3'', ''report2'']) [] t
          = (Inl AttributeError, t\<lparr>fetched := fetched t @ [] @ [''report4'']\<rparr>)" for t
    by (rule read_complete_loop_Inl[where rows = "[]"]) (simp_all add: broken_report4)
  then show ?thesis
    by (simp add: read_complete_def with_get_driver_def read_complete_body_def driver_get_def
        example_listings example_links)
qed

lemma watermark_start: "date_max (load_datafile start_state) = Some ''2022-01-02''"
  by (simp add: date_max_def load_datafile_def start_state_def pipeline_map bulletin_row_def)

lemma export_example:
  "export example_web start_state
     = (Inr (),
        \<lparr>datafile = pipeline [report_row ''2022-01-03'' ''report4'',
                              report_row ''2022-12-29'' ''report3'',
                              report_row ''2022-12-22'' ''report2'']
                     @ pipeline [bulletin_row ''2022-01-02'' 3031201 ''bulletin2''],
         fetched = [China_source_url, ''bulletin3'', ''bulletin2'',
                    China_source_url_complete, ''report4'', ''report3'', ''report2''],
         acquired = 2, released = 2\<rparr>)"
  unfolding export_def watermark_start read_example read_complete_example
  by (simp add: transform_def merge_frames_def export_datafile_def attach_def pipeline_map
      report_row_def bulletin_row_def start_state_def)

lemma export_broken:
  "export broken_web start_state
     = (Inl AttributeError,
        start_state\<lparr>fetched := [China_source_url, ''bulletin3'', ''bulletin2'',
                                 China_source_url_complete, ''report4''],
                    acquired := 2, released := 2\<rparr>)"
  unfolding export_def watermark_start read_broken read_complete_broken
  by (simp add: start_state_def)

lemma sorted_wrt_gt_nth:
  "sorted_wrt (\<lambda>x y. y < x) xs \<Longrightarrow> i < j \<Longrightarrow> j < length xs \<Longrightarrow> (xs ! j :: string) < xs ! i"
  by (simp add: sorted_wrt_iff_nth_less)

subsection \<open>The incremental walk\<close>

text \<open>
  C2, as amended. For a listing whose pages all parse and whose dates are strictly
  decreasing, and a watermark equal to the date of the page at position \<open>k\<close> (counted
  from zero), \<open>read\<close> returns exactly the rows of the pages before position \<open>k\<close>, in the
  order of the listing. It fetches the listing and the pages up to and including the
  page at position \<open>k\<close>: that page is fetched and parsed, since its date is known only
  from its text, and then dropped; no later page is fetched. One session is acquired and
  released.
\<close>

theorem read_stops_after_watermark_page:
  assumes listing: "w China_source_url = Loaded listing"
    and rows: "map (page_row w) (get_links listing) = map Inr rows"
    and decreasing: "sorted_wrt (\<lambda>d d'. d' < d) (map date rows)"
    and k: "k < length rows"
  shows "read w (Some (date (rows ! k))) s
           = (Inr (take k rows),
              s\<lparr>fetched := fetched s @ China_source_url # take (Suc k) (get_links listing),
                acquired := acquired s + 1, released := released s + 1\<rparr>)"
proof -
  let ?links = "get_links listing"
  have len: "length ?links = length rows"
    using rows by (metis length_map)
  have split: "?links = take k ?links @ (?links ! k) # drop (Suc k) ?links"
    using k len by (simp add: id_take_nth_drop)
  have pre: "map (page_row w) (take k ?links) = map Inr (take k rows)"
    using rows by (metis take_map)
  have at: "page_row w (?links ! k) = Inr (rows ! k)"
    using rows k len by (metis nth_map)
  have above: "\<forall>r \<in> set (take k rows). date (rows ! k) < date r"
  proof
    fix r assume "r \<in> set (take k rows)"
    then obtain i where i: "i < k" "r = rows ! i"
      using k by (auto simp: in_set_conv_nth)
    from sorted_wrt_gt_nth[OF decreasing, of i k] i k
    show "date (rows ! k) < date r" by simp
  qed
  have loop: "read_loop w (Some (date (rows ! k))) ?links [] t
           = (Inr (take k rows), t\<lparr>fetched := fetched t @ take k ?links @ [?links ! k]\<rparr>)" for t
    using read_loop_stop[OF pre above at, of "drop (Suc k) ?links" "[]" t] split by simp
  have tk: "take (Suc k) ?links = take k ?links @ [?links ! k]"
    using k len by (simp add: take_Suc_conv_app_nth)
  show ?thesis
    by (simp add: read_def with_get_driver_def read_body_def driver_get_def listing loop tk)
qed



theorem read_stops_after_watermark_page_witness:
  "example_web China_source_url = Loaded bulletin_listing
   \<and> map (page_row example_web) (get_links bulletin_listing)
       = map Inr [bulletin_row ''2022-01-03'' 3038425 ''bulletin3'',
                  bulletin_row ''2022-01-02'' 3031201 ''bulletin2'',
                  bulletin_row ''2022-01-01'' 3025917 ''bulletin1'']
   \<and> sorted_wrt (\<lambda>d d'. d' < d)
         (map date [bulletin_row ''2022-01-03'' 3038425 ''bulletin3'',
                    bulletin_row ''2022-01-02'' 3031201 ''bulletin2'',
                    bulletin_row ''2022-01-01'' 3025917 ''bulletin1''])
   \<and> read example_web (Some ''2022-01-02'') start_state
       = (Inr [bulletin_row ''2022-01-03'' 3038425 ''bulletin3''],
          start_state\<lparr>fetched := [China_source_url, ''bulletin3'', ''bulletin2''],
                      acquired := 1, released := 1\<rparr>)"
proof -
  let ?rows = "[bulletin_row ''2022-01-03'' 3038425 ''bulletin3'',
                bulletin_row ''2022-01-02'' 3031201 ''bulletin2'',
                bulletin_row ''2022-01-01'' 3025917 ''bulletin1'']"
  have 1: "example_web China_source_url = Loaded bulletin_listing"
    by (rule example_listings)
  have 2: "map (page_row example_web) (get_links bulletin_listing) = map Inr ?rows"
    by (simp only: example_links example_bulletins)
  have 3: "sorted_wrt (\<lambda>d d'. d' < d) (map date ?rows)"
    by (simp add: bulletin_row_def)
  have 4: "1 < length ?rows"
    by simp
  from read_stops_after_watermark_page[OF 1 2 3 4, of start_state]
  have 5: "read example_web (Some ''2022-01-02'') start_state
       = (Inr [bulletin_row ''2022-01-03'' 3038425 ''bulletin3''],
          start_state\<lparr>fetched := [China_source_url, ''bulletin3'', ''bulletin2''],
                      acquired := 1, released := 1\<rparr>)"
    by (simp add: example_links bulletin_row_def start_state_def)
  show ?thesis
    by (intro conjI 1 2 3 5)
qed

theorem read_fetches_watermark_page_counterexample:
  "page_row example_web ''bulletin2'' = Inr (bulletin_row ''2022-01-02'' 3031201 ''bulletin2'')
   \<and> fst (read example_web (Some ''2022-01-02'') start_state)
       = Inr [bulletin_row ''2022-01-03'' 3038425 ''bulletin3'']
   \<and> fetched (snd (read example_web (Some ''2022-01-02'') start_state))
       = [China_source_url, ''bulletin3'', ''bulletin2'']"
  using example_bulletins by (simp add: read_example start_state_def)

subsection \<open>\<open>export\<close>: the persisted file and the sessions\<close>

text \<open>
  C5. If \<open>export\<close> raises, whether during the extraction of either stream or during the
  merge, the persisted dataset is what it was before the run: the only write is
  \<open>export_datafile\<close>, the last step, which is reached with the merged frame complete.
\<close>

theorem export_failure_leaves_datafile:
  "export w s = (Inl e, s') \<Longrightarrow> datafile s' = datafile s"
proof -
  assume a: "export w s = (Inl e, s')"
  obtain r1 s1 where r: "read w (date_max (load_datafile s)) s = (r1, s1)"
    by (cases "read w (date_max (load_datafile s)) s") auto
  note 1 = read_state[OF r]
  show ?thesis
  proof (cases r1)
    case (Inl e1)
    with a r 1 show ?thesis by (simp add: export_def)
  next
    case (Inr df)
    obtain r2 s2 where c: "read_complete w s1 = (r2, s2)"
      by (cases "read_complete w s1") auto
    note 2 = read_complete_state[OF c]
    show ?thesis
    proof (cases r2)
      case (Inl e2)
      with a r c Inr 1 2 show ?thesis by (simp add: export_def)
    next
      case dc: (Inr df_complete)
      with a r c Inr 1 2 show ?thesis
        by (auto simp: export_def split: sum.splits)
    qed
  qed
qed

theorem export_failure_leaves_datafile_witness:
  "page_row_complete broken_web ''report4'' = Inl AttributeError
   \<and> fst (export broken_web start_state) = Inl AttributeError
   \<and> datafile (snd (export broken_web start_state)) = datafile start_state"
  using export_failure_leaves_datafile [OF export_broken] broken_report4
  by (simp add: export_broken)

text \<open>
  C7, as amended. Each of \<open>read\<close> and \<open>read_complete\<close> acquires a session of its own in
  a with-block and releases it on every exit path. A run of \<open>export\<close> therefore acquires
  two sessions when \<open>read\<close> returns and one when \<open>read\<close> raises, and in every case, however
  the run ends, it has released as many sessions as it acquired.
\<close>

theorem export_sessions:
  "acquired (snd (export w s))
     = acquired s + (if isl (fst (read w (date_max (load_datafile s)) s)) then 1 else 2)
   \<and> released (snd (export w s))
     = released s + (if isl (fst (read w (date_max (load_datafile s)) s)) then 1 else 2)"
proof -
  obtain r1 s1 where r: "read w (date_max (load_datafile s)) s = (r1, s1)"
    by (cases "read w (date_max (load_datafile s)) s") auto
  note 1 = read_state[OF r]
  show ?thesis
  proof (cases r1)
    case (Inl e1)
    with r 1 show ?thesis by (simp add: export_def)
  next
    case (Inr df)
    obtain r2 s2 where c: "read_complete w s1 = (r2, s2)"
      by (cases "read_complete w s1") auto
    note 2 = read_complete_state[OF c]
    show ?thesis
    proof (cases r2)
      case (Inl e2)
      with r c Inr 1 2 show ?thesis by (simp add: export_def)
    next
      case dc: (Inr df_complete)
      with r c Inr 1 2 show ?thesis
        by (auto simp: export_def export_datafile_def split: sum.splits)
    qed
  qed
qed

theorem export_two_sessions_counterexample:
  "fst (export example_web start_state) = Inr ()
   \<and> acquired start_state = 0
   \<and> acquired (snd (export example_web start_state)) = 2
   \<and> released (snd (export example_web start_state)) = 2"
  unfolding export_example by (simp add: start_state_def)

subsection \<open>The complete-bulletin scraper\<close>

lemma parse_page_complete_Inr:
  assumes "parse_page_complete url p = Inr r"
  shows "\<exists>elem month day t1 t2 p1 p2 f1 f2 b1 b2 tv pv pf tb.
           xw_box p = Some elem
         \<and> doses_groups elem = Some (month, day, t1, t2)
         \<and> people_groups elem = Some (p1, p2)
         \<and> fully_groups elem = Some (f1, f2)
         \<and> boosters_groups elem = Some (b1, b2)
         \<and> estimate_metric t1 t2 = Inr tv \<and> total_vaccinations r = Some tv
         \<and> estimate_metric p1 p2 = Inr pv \<and> people_vaccinated r = Some pv
         \<and> estimate_metric f1 f2 = Inr pf \<and> people_fully_vaccinated r = Some pf
         \<and> estimate_metric b1 b2 = Inr tb \<and> total_boosters r = Some tb
         \<and> clean_date (''2022'', month, day) = Inr (date r)
         \<and> source_url r = url"
  using assms
  by (auto simp: parse_page_complete_def find_element_by_id_xw_box_def
      split: option.splits sum.splits prod.splits)

lemma clean_date_Inr:
  "clean_date (y, m, d) = Inr x \<Longrightarrow> x = y @ ''-'' @ pad2 m @ ''-'' @ pad2 d \<and> length y = 4"
  by (auto simp: clean_date_def split: if_splits)


lemma page_row_complete_Inr:
  "page_row_complete w link = Inr r \<Longrightarrow> \<exists>p. w link = Loaded p \<and> parse_page_complete link p = Inr r"
  by (auto simp: page_row_complete_def split: nav.splits)

lemma with_get_driver_eq:
  "with_get_driver body s = (r, s') \<longleftrightarrow>
     (\<exists>t. body (s\<lparr>acquired := acquired s + 1\<rparr>) = (r, t) \<and> s' = t\<lparr>released := released t + 1\<rparr>)"
  by (cases "body (s\<lparr>acquired := acquired s + 1\<rparr>)") (auto simp: with_get_driver_def)

lemma read_complete_body_Inr:
  assumes "read_complete_body w s = (Inr records, t)"
  shows "\<exists>listing. w China_source_url_complete = Loaded listing
           \<and> map (page_row_complete w) (take 3 (get_links_complete listing)) = map Inr records
           \<and> fetched t = fetched s @ China_source_url_complete # take 3 (get_links_complete listing)"
proof (cases "w China_source_url_complete")
  case Timeout
  with assms show ?thesis
    by (simp add: read_complete_body_def driver_get_def)
next
  case (Loaded listing)
  with assms have "read_complete_loop w (take 3 (get_links_complete listing)) []
      (s\<lparr>fetched := fetched s @ [China_source_url_complete]\<rparr>) = (Inr records, t)"
    by (simp add: read_complete_body_def driver_get_def num_links_complete_def)
  from read_complete_loop_rows[OF this] obtain rows where
    rows: "map (page_row_complete w) (take 3 (get_links_complete listing)) = map Inr rows"
    and r: "records = [] @ rows"
    and t: "t = s\<lparr>fetched := fetched s @ [China_source_url_complete]\<rparr>
               \<lparr>fetched := fetched (s\<lparr>fetched := fetched s @ [China_source_url_complete]\<rparr>)
                   @ take 3 (get_links_complete listing)\<rparr>"
    by (elim exE conjE)
  show ?thesis
    by (rule exI[of _ listing]) (simp add: Loaded rows r t)
qed

lemma read_complete_Inr:
  assumes "read_complete w s = (Inr records, s')"
  shows "\<exists>listing. w China_source_url_complete = Loaded listing
           \<and> map (page_row_complete w) (take 3 (get_links_complete listing)) = map Inr records
           \<and> fetched s' = fetched s @ China_source_url_complete # take 3 (get_links_complete listing)"
proof -
  from assms obtain t where
    b: "read_complete_body w (s\<lparr>acquired := acquired s + 1\<rparr>) = (Inr records, t)"
    and s': "s' = t\<lparr>released := released t + 1\<rparr>"
    unfolding read_complete_def with_get_driver_eq by (elim exE conjE)
  from read_complete_body_Inr[OF b] show ?thesis
    by (simp add: s')
qed

lemma read_complete_loop_fst:
  "fst (read_complete_loop w links records s) = fst (read_complete_loop w links records t)"
proof (induction links arbitrary: records s t)
  case Nil
  show ?case by simp
next
  case (Cons l links)
  show ?case
    by (cases "page_row_complete w l") (simp_all add: parse_data_complete_eq Cons.IH[of _ "s\<lparr>fetched := fetched s @ [l]\<rparr>" "t\<lparr>fetched := fetched t @ [l]\<rparr>"])
qed

lemma read_complete_fst:
  "fst (read_complete w s) = fst (read_complete w t)"
proof (cases "w China_source_url_complete")
  case Timeout
  then show ?thesis
    by (simp add: read_complete_def with_get_driver_def read_complete_body_def driver_get_def)
next
  case (Loaded listing)
  let ?links = "take num_links_complete (get_links_complete listing)"
  let ?s = "s\<lparr>acquired := acquired s + 1, fetched := fetched s @ [China_source_url_complete]\<rparr>"
  let ?t = "t\<lparr>acquired := acquired t + 1, fetched := fetched t @ [China_source_url_complete]\<rparr>"
  obtain a s1 where a: "read_complete_loop w ?links [] ?s = (a, s1)"
    by (cases "read_complete_loop w ?links [] ?s") auto
  obtain b t1 where b: "read_complete_loop w ?links [] ?t = (b, t1)"
    by (cases "read_complete_loop w ?links [] ?t") auto
  from read_complete_loop_fst[of w ?links "[]" ?s ?t] a b have "a = b" by simp
  with Loaded a b show ?thesis
    by (simp add: read_complete_def with_get_driver_def read_complete_body_def driver_get_def)
qed

text \<open>
  C8. \<open>read_complete\<close> does not depend on the persisted dataset (it takes no watermark).
  When it returns, the index page was loaded, the rows come, in order, from the first
  three links whose anchor text matches the title pattern, only the index page and those
  links were fetched, and each row carries the four counts, each the value of
  \<open>_estimate_metric\<close> on the two numeral groups of its pattern in the page of the row.
\<close>

theorem read_complete_first_three:
  "fst (read_complete w (s\<lparr>datafile := prior\<rparr>)) = fst (read_complete w s)
   \<and> (read_complete w s = (Inr records, s') \<longrightarrow>
        (\<exists>listing. w China_source_url_complete = Loaded listing
           \<and> map source_url records
               = take 3 (map href (filter (\<lambda>a. title_groups a \<noteq> None) (anchors listing)))
           \<and> fetched s'
               = fetched s @ China_source_url_complete
                   # take 3 (map href (filter (\<lambda>a. title_groups a \<noteq> None) (anchors listing))))
        \<and> (\<forall>r \<in> set records.
              \<exists>p elem month day t1 t2 p1 p2 f1 f2 b1 b2 tv pv pf tb.
                  w (source_url r) = Loaded p \<and> xw_box p = Some elem
                \<and> doses_groups elem = Some (month, day, t1, t2)
                \<and> people_groups elem = Some (p1, p2)
                \<and> fully_groups elem = Some (f1, f2)
                \<and> boosters_groups elem = Some (b1, b2)
                \<and> estimate_metric t1 t2 = Inr tv \<and> total_vaccinations r = Some tv
                \<and> estimate_metric p1 p2 = Inr pv \<and> people_vaccinated r = Some pv
                \<and> estimate_metric f1 f2 = Inr pf \<and> people_fully_vaccinated r = Some pf
                \<and> estimate_metric b1 b2 = Inr tb \<and> total_boosters r = Some tb))"
proof (intro conjI impI)
  show "fst (read_complete w (s\<lparr>datafile := prior\<rparr>)) = fst (read_complete w s)"
    by (rule read_complete_fst)
next
  assume a: "read_complete w s = (Inr records, s')"
  from read_complete_Inr[OF a] obtain listing where
    l: "w China_source_url_complete = Loaded listing"
    and rows: "map (page_row_complete w) (take 3 (get_links_complete listing)) = map Inr records"
    and f: "fetched s' = fetched s @ China_source_url_complete # take 3 (get_links_complete listing)"
    by blast
  let ?links = "take 3 (get_links_complete listing)"
  have len: "length ?links = length records"
    using rows by (metis length_map)
  have each: "\<exists>p. w (?links ! i) = Loaded p \<and> parse_page_complete (?links ! i) p = Inr (records ! i)"
    if "i < length records" for i
  proof -
    have "page_row_complete w (?links ! i) = Inr (records ! i)"
      using rows that len by (metis nth_map)
    then show ?thesis by (rule page_row_complete_Inr)
  qed
  have urls: "map source_url records = ?links"
  proof (rule nth_equalityI)
    show "length (map source_url records) = length ?links" using len by simp
  next
    fix i assume "i < length (map source_url records)"
    then have i: "i < length records" by simp
    from each[OF i] obtain p where "parse_page_complete (?links ! i) p = Inr (records ! i)" by blast
    from parse_page_complete_Inr[OF this] have "source_url (records ! i) = ?links ! i"
      by (elim exE conjE)
    with i show "map source_url records ! i = ?links ! i" by simp
  qed
  show "\<exists>listing. w China_source_url_complete = Loaded listing
           \<and> map source_url records
               = take 3 (map href (filter (\<lambda>a. title_groups a \<noteq> None) (anchors listing)))
           \<and> fetched s'
               = fetched s @ China_source_url_complete
                   # take 3 (map href (filter (\<lambda>a. title_groups a \<noteq> None) (anchors listing)))"
    using l urls f unfolding get_links_complete_def by (intro exI[of _ listing]) simp
  show "\<forall>r \<in> set records.
              \<exists>p elem month day t1 t2 p1 p2 f1 f2 b1 b2 tv pv pf tb.
                  w (source_url r) = Loaded p \<and> xw_box p = Some elem
                \<and> doses_groups elem = Some (month, day, t1, t2)
                \<and> people_groups elem = Some (p1, p2)
                \<and> fully_groups elem = Some (f1, f2)
                \<and> boosters_groups elem = Some (b1, b2)
                \<and> estimate_metric t1 t2 = Inr tv \<and> total_vaccinations r = Some tv
                \<and> estimate_metric p1 p2 = Inr pv \<and> people_vaccinated r = Some pv
                \<and> estimate_metric f1 f2 = Inr pf \<and> people_fully_vaccinated r = Some pf
                \<and> estimate_metric b1 b2 = Inr tb \<and> total_boosters r = Some tb"
  proof
    fix r assume "r \<in> set records"
    then obtain i where i: "i < length records" "r = records ! i"
      by (auto simp: in_set_conv_nth)
    from each[OF i(1)] obtain p where p: "w (?links ! i) = Loaded p"
      "parse_page_complete (?links ! i) p = Inr r" using i(2) by blast
    from parse_page_complete_Inr[OF p(2)] obtain elem month day t1 t2 p1 p2 f1 f2 b1 b2 tv pv pf tb
      where *: "xw_box p = Some elem" "doses_groups elem = Some (month, day, t1, t2)"
        "people_groups elem = Some (p1, p2)" "fully_groups elem = Some (f1, f2)"
        "boosters_groups elem = Some (b1, b2)"
        "estimate_metric t1 t2 = Inr tv" "total_vaccinations r = Some tv"
        "estimate_metric p1 p2 = Inr pv" "people_vaccinated r = Some pv"
        "estimate_metric f1 f2 = Inr pf" "people_fully_vaccinated r = Some pf"
        "estimate_metric b1 b2 = Inr tb" "total_boosters r = Some tb"
        "source_url r = ?links ! i"
      by (elim exE conjE) (rule that; assumption)
    from p(1) *(14) have **: "w (source_url r) = Loaded p" by simp
    show "\<exists>p elem month day t1 t2 p1 p2 f1 f2 b1 b2 tv pv pf tb.
                  w (source_url r) = Loaded p \<and> xw_box p = Some elem
                \<and> doses_groups elem = Some (month, day, t1, t2)
                \<and> people_groups elem = Some (p1, p2)
                \<and> fully_groups elem = Some (f1, f2)
                \<and> boosters_groups elem = Some (b1, b2)
                \<and> estimate_metric t1 t2 = Inr tv \<and> total_vaccinations r = Some tv
                \<and> estimate_metric p1 p2 = Inr pv \<and> people_vaccinated r = Some pv
                \<and> estimate_metric f1 f2 = Inr pf \<and> people_fully_vaccinated r = Some pf
                \<and> estimate_metric b1 b2 = Inr tb \<and> total_boosters r = Some tb"
      by (intro exI conjI) (rule ** *)+
  qed
qed

theorem read_complete_first_three_witness:
  "read_complete example_web start_state
     = (Inr [report_row ''2022-01-03'' ''report4'', report_row ''2022-12-29'' ''report3'',
             report_row ''2022-12-22'' ''report2''],
        start_state\<lparr>fetched := fetched start_state
                       @ [China_source_url_complete, ''report4'', ''report3'', ''report2''],
                    acquired := acquired start_state + 1,
                    released := released start_state + 1\<rparr>)
   \<and> map href (filter (\<lambda>a. title_groups a \<noteq> None) (anchors report_listing))
       = [''report4'', ''report3'', ''report2'', ''report1'']
   \<and> map source_url [report_row ''2022-01-03'' ''report4'', report_row ''2022-12-29'' ''report3'',
                       report_row ''2022-12-22'' ''report2'']
       = take 3 (map href (filter (\<lambda>a. title_groups a \<noteq> None) (anchors report_listing)))"
proof -
  let ?rows = "[report_row ''2022-01-03'' ''report4'', report_row ''2022-12-29'' ''report3'',
                report_row ''2022-12-22'' ''report2'']"
  note ev = read_complete_example[of start_state]
  note th = read_complete_first_three[where w = example_web and s = start_state
      and records = ?rows, THEN conjunct2, THEN mp, OF ev, THEN conjunct1]
  then obtain listing where l: "example_web China_source_url_complete = Loaded listing"
    and u: "map source_url ?rows
              = take 3 (map href (filter (\<lambda>a. title_groups a \<noteq> None) (anchors listing)))"
    by (elim exE conjE)
  from l have "listing = report_listing"
    by (simp add: example_listings)
  with u have 3: "map source_url ?rows
       = take 3 (map href (filter (\<lambda>a. title_groups a \<noteq> None) (anchors report_listing)))"
    by simp
  have 2: "map href (filter (\<lambda>a. title_groups a \<noteq> None) (anchors report_listing))
       = [''report4'', ''report3'', ''report2'', ''report1'']"
    by (simp add: report_listing_def)
  show ?thesis
    by (intro conjI ev 2 3)
qed

text \<open>
  C10. The date of a row of a complete bulletin is the constant year 2022 followed by the
  month and the day that the doses pattern captured, each padded to two digits: every row
  that \<open>read_complete\<close> returns has a date in 2022, and what the date pattern captures in
  the page (a date with a year) has no effect on the row.
\<close>

theorem complete_date_year_2022:
  "(parse_page_complete url p = Inr r \<longrightarrow>
      (\<exists>elem month day t1 t2. xw_box p = Some elem
         \<and> doses_groups elem = Some (month, day, t1, t2)
         \<and> date r = ''2022-'' @ pad2 month @ ''-'' @ pad2 day))
   \<and> (read_complete w s = (Inr records, s') \<longrightarrow>
        list_all (\<lambda>r. take 5 (date r) = ''2022-'') records)
   \<and> parse_page_complete url (p\<lparr>xw_box := Some (elem\<lparr>date_groups := g\<rparr>)\<rparr>)
       = parse_page_complete url (p\<lparr>xw_box := Some elem\<rparr>)"
proof (intro conjI impI)
  have year: "\<exists>elem month day t1 t2. xw_box q = Some elem
         \<and> doses_groups elem = Some (month, day, t1, t2)
         \<and> date x = ''2022-'' @ pad2 month @ ''-'' @ pad2 day"
    if "parse_page_complete u q = Inr x" for u q x
  proof -
    from parse_page_complete_Inr[OF that] obtain elem month day t1 t2 where
      e: "xw_box q = Some elem" "doses_groups elem = Some (month, day, t1, t2)"
      "clean_date (''2022'', month, day) = Inr (date x)"
      by (elim exE conjE) (rule that; assumption)
    from clean_date_Inr[OF e(3)] have "date x = ''2022-'' @ pad2 month @ ''-'' @ pad2 day"
      by simp
    with e show ?thesis by blast
  qed
  show "\<exists>elem month day t1 t2. xw_box p = Some elem
         \<and> doses_groups elem = Some (month, day, t1, t2)
         \<and> date r = ''2022-'' @ pad2 month @ ''-'' @ pad2 day"
    if "parse_page_complete url p = Inr r"
    using year[OF that] .
  show "list_all (\<lambda>r. take 5 (date r) = ''2022-'') records"
    if a: "read_complete w s = (Inr records, s')"
  proof -
    from read_complete_Inr[OF a] obtain listing where
      rows: "map (page_row_complete w) (take 3 (get_links_complete listing)) = map Inr records"
      by blast
    have "take 5 (date x) = ''2022-''" if "x \<in> set records" for x
    proof -
      from that obtain i where i: "i < length records" "x = records ! i"
        by (auto simp: in_set_conv_nth)
      have "length (take 3 (get_links_complete listing)) = length records"
        using rows by (metis length_map)
      with rows i have "page_row_complete w (take 3 (get_links_complete listing) ! i) = Inr x"
        by (metis nth_map)
      from page_row_complete_Inr[OF this] obtain q where
        "parse_page_complete (take 3 (get_links_complete listing) ! i) q = Inr x" by blast
      from year[OF this] show ?thesis by auto
    qed
    then show ?thesis by (simp add: list_all_iff)
  qed
  show "parse_page_complete url (p\<lparr>xw_box := Some (elem\<lparr>date_groups := g\<rparr>)\<rparr>)
       = parse_page_complete url (p\<lparr>xw_box := Some elem\<rparr>)"
    by (simp add: parse_page_complete_def find_element_by_id_xw_box_def
        split: option.split sum.split prod.split)
qed

theorem complete_date_year_2022_witness:
  "title_groups (anchors report_listing ! 2) = Some (''2021'', ''12'', ''30'')
   \<and> href (anchors report_listing ! 2) = ''report3''
   \<and> parse_page_complete ''report3'' (report (''12'', ''29'') (Some (''12'', ''8000'')))
       = Inr (report_row ''2022-12-29'' ''report3'')
   \<and> date (report_row ''2022-12-29'' ''report3'') = ''2022-'' @ pad2 ''12'' @ ''-'' @ pad2 ''29''"
proof -
  note p = parse_report[OF clean_date_dec29, of "''report3''"]
  note th = complete_date_year_2022[of "''report3''" "report (''12'', ''29'') (Some (''12'', ''8000''))"
      "report_row ''2022-12-29'' ''report3''", THEN conjunct1, THEN mp, OF p]
  then have 4: "date (report_row ''2022-12-29'' ''report3'') = ''2022-'' @ pad2 ''12'' @ ''-'' @ pad2 ''29''"
    by (auto simp: report_def)
  have 1: "title_groups (anchors report_listing ! 2) = Some (''2021'', ''12'', ''30'')"
    and 2: "href (anchors report_listing ! 2) = ''report3''"
    by (simp_all add: report_listing_def)
  show ?thesis
    by (intro conjI 1 2 p 4)
qed

subsection \<open>Parser failures\<close>

lemma py_int_Inl: "py_int x = Inl e \<Longrightarrow> e = ValueError \<or> e = OverflowError"
  by (auto simp: py_int_def split: pyfloat.splits)

lemma estimate_metric_Inl:
  "estimate_metric a b = Inl e \<Longrightarrow> e = ValueError \<or> e = OverflowError"
  by (auto simp: estimate_metric_def py_float_def split: sum.splits if_splits dest: py_int_Inl)

lemma clean_date_Inl: "clean_date ymd = Inl e \<Longrightarrow> e = ParseError ''date'' None"
  by (auto simp: clean_date_def split: prod.splits if_splits)

lemma extract_clean_date_Inl: "extract_clean_date g = Inl e \<Longrightarrow> e = ParseError ''date'' None"
  by (auto simp: extract_clean_date_def split: option.splits dest: clean_date_Inl)

lemma clean_count_Inl: "clean_count c = Inl e \<Longrightarrow> e = ValueError"
  by (auto simp: clean_count_def split: list.splits)

lemma parse_page_complete_Inl:
  "parse_page_complete url p = Inl e \<Longrightarrow>
     e = NoSuchElementException \<or> e = AttributeError \<or> e = ValueError \<or> e = OverflowError
     \<or> e = ParseError ''date'' None"
  by (auto simp: parse_page_complete_def find_element_by_id_xw_box_def
      split: option.splits sum.splits prod.splits
      dest: estimate_metric_Inl clean_date_Inl)

lemma parse_page_Inl:
  "parse_page url p = Inl e \<Longrightarrow>
     e = NoSuchElementException \<or> e = AttributeError \<or> e = ValueError
     \<or> e = ParseError ''date'' None"
  by (auto simp: parse_page_def find_element_by_id_xw_box_def
      split: option.splits sum.splits
      dest: extract_clean_date_Inl clean_count_Inl)

lemma parse_page_complete_missing:
  "xw_box p = Some elem \<Longrightarrow>
     doses_groups elem = None \<or> people_groups elem = None \<or> fully_groups elem = None
       \<or> boosters_groups elem = None \<Longrightarrow>
     parse_page_complete url p = Inl AttributeError"
  by (auto simp: parse_page_complete_def find_element_by_id_xw_box_def
      split: option.splits prod.splits)

lemma parse_page_missing:
  "xw_box p = Some elem \<Longrightarrow> extract_clean_date (date_groups elem) = Inr d \<Longrightarrow>
     total_vaccinations_group elem = None \<Longrightarrow> parse_page url p = Inl AttributeError"
  by (simp add: parse_page_def find_element_by_id_xw_box_def)

text \<open>
  C6, as amended. Every parser failure propagates uncaught, but none is a typed parse
  error that carries the source URL. A complete bulletin in which one of the four patterns
  does not match (each pattern requires both of its numeral groups) raises
  \<open>AttributeError\<close>, and so does a bulletin whose count pattern does not match: a missing
  group is never read as zero. No failure of either parser is a \<open>ParseError\<close> with a
  URL. A failure on a page is the result of the walk that reached it.
\<close>

theorem parser_failures_propagate_untyped:
  "(xw_box p = Some elem
      \<and> (doses_groups elem = None \<or> people_groups elem = None \<or> fully_groups elem = None
           \<or> boosters_groups elem = None)
      \<longrightarrow> parse_page_complete url p = Inl AttributeError)
   \<and> (xw_box p = Some elem \<and> extract_clean_date (date_groups elem) = Inr d
        \<and> total_vaccinations_group elem = None
      \<longrightarrow> parse_page url p = Inl AttributeError)
   \<and> parse_page_complete url p \<noteq> Inl (ParseError field (Some u))
   \<and> parse_page url p \<noteq> Inl (ParseError field (Some u))
   \<and> (page_row_complete w link = Inl e
        \<longrightarrow> fst (read_complete_loop w (link # links) records s) = Inl e)
   \<and> (page_row w link = Inl e \<longrightarrow> fst (read_loop w last_update (link # links) data s) = Inl e)"
proof (intro conjI impI)
  show "parse_page_complete url p = Inl AttributeError"
    if "xw_box p = Some elem
      \<and> (doses_groups elem = None \<or> people_groups elem = None \<or> fully_groups elem = None
           \<or> boosters_groups elem = None)"
    using that parse_page_complete_missing by blast
  show "parse_page url p = Inl AttributeError"
    if "xw_box p = Some elem \<and> extract_clean_date (date_groups elem) = Inr d
        \<and> total_vaccinations_group elem = None"
    using that parse_page_missing by blast
  show "parse_page_complete url p \<noteq> Inl (ParseError field (Some u))"
    using parse_page_complete_Inl[of url p "ParseError field (Some u)"] by auto
  show "parse_page url p \<noteq> Inl (ParseError field (Some u))"
    using parse_page_Inl[of url p "ParseError field (Some u)"] by auto
  show "fst (read_complete_loop w (link # links) records s) = Inl e"
    if "page_row_complete w link = Inl e"
    using that by (simp add: parse_data_complete_eq)
  show "fst (read_loop w last_update (link # links) data s) = Inl e"
    if "page_row w link = Inl e"
    using that by (simp add: parse_data_eq)
qed

theorem parser_failures_propagate_untyped_witness:
  "xw_box (report (''1'', ''3'') None) \<noteq> None
   \<and> people_groups (the (xw_box (report (''1'', ''3'') None))) = None
   \<and> parse_page_complete ''report4'' (report (''1'', ''3'') None) = Inl AttributeError
   \<and> page_row_complete broken_web ''report4'' = Inl AttributeError
   \<and> fst (read_complete_loop broken_web [''report4'', ''report3'', ''report2''] [] start_state)
       = Inl AttributeError"
proof -
  let ?elem = "the (xw_box (report (''1'', ''3'') None))"
  have 1: "xw_box (report (''1'', ''3'') None) = Some ?elem"
    and 2: "people_groups ?elem = None"
    by (simp_all add: report_def)
  note th = parser_failures_propagate_untyped[where p = "report (''1'', ''3'') None"
      and elem = ?elem and url = "''report4''" and w = broken_web and link = "''report4''"
      and e = AttributeError and links = "[''report3'', ''report2'']" and records = "[]"
      and s = start_state]
  from th 1 2 have 3: "parse_page_complete ''report4'' (report (''1'', ''3'') None) = Inl AttributeError"
    by blast
  from th broken_report4
  have 5: "fst (read_complete_loop broken_web [''report4'', ''report3'', ''report2''] [] start_state)
       = Inl AttributeError"
    by blast
  have 0: "xw_box (report (''1'', ''3'') None) \<noteq> None"
    by (simp add: report_def)
  show ?thesis
    by (intro conjI 0 2 3 broken_report4 5)
qed

theorem missing_group_attribute_error_counterexample:
  "people_groups (the (xw_box (report (''1'', ''3'') None))) = None
   \<and> parse_page_complete ''report4'' (report (''1'', ''3'') None) = Inl AttributeError
   \<and> Inl AttributeError \<noteq> (Inl (ParseError ''people_vaccinated'' (Some ''report4'')) :: error + row)"
  using parse_report_broken[of "''report4''" "(''1'', ''3'')"] by (simp add: report_def)

subsection \<open>The two-magnitude estimate\<close>

text \<open>
  The model against two well-known doubles: \<open>0.1\<close> is \<open>0x1.999999999999ap-4\<close>, and
  \<open>2.3 * 1e8\<close> is \<open>229999999.99999997\<close> in Python.
\<close>

lemma binade_tenth: "binade 1 10 = - 4"
  by (simp add: binade_def compute_bitlen Let_def)

lemma py_float_tenth: "py_float ''0.1'' = Inr (Fin 7205759403792794 (- 56))"
  by (simp add: py_float_def is_decimal_def decimal_digits_def decimal_places_def is_digit_def
      nat_of_digits_def digit_value_def fl_def binade_tenth round_half_even_def Let_def)

lemma binade_23_10: "binade 23 10 = 1"
  by (simp add: binade_def compute_bitlen Let_def)

lemma py_float_2_3: "py_float ''2.3'' = Inr (Fin 5179139571476070 (- 51))"
  by (simp add: py_float_def is_decimal_def decimal_digits_def decimal_places_def is_digit_def
      nat_of_digits_def digit_value_def fl_def binade_23_10 round_half_even_def Let_def)

lemma binade_2_3e8: "binade 517913957147607000000000 2251799813685248 = 27"
  by (simp add: binade_def compute_bitlen Let_def)

lemma float_mul_2_3e8:
  "float_mul (Fin 5179139571476070 (- 51)) (Fin 100000000 0) = Fin 7717519359999999 (- 25)"
  by (simp add: float_mul_def fl_dyadic_def fl_def binade_2_3e8 round_half_even_def Let_def)

lemma float_value_2_3e8:
  "float_value (Fin 7717519359999999 (- 25)) = Some (230000000 - 1 / 2 ^ 25)"
  by (simp add: pow2_def)

lemma py_float_0: "py_float ''0'' = Inr (Fin 0 0)"
  by (simp add: float_ev)

lemma binade_203_100: "binade 203 100 = 1"
  by (simp add: binade_def compute_bitlen Let_def)

lemma py_float_2_03: "py_float ''2.03'' = Inr (Fin 4571153621781053 (- 51))"
  by (simp add: py_float_def is_decimal_def decimal_digits_def decimal_places_def is_digit_def
      nat_of_digits_def digit_value_def fl_def binade_203_100 round_half_even_def Let_def)

lemma float_mul_0: "float_mul (Fin 0 0) (Fin k 0) = Fin 0 0"
  by (simp add: float_mul_def fl_dyadic_def fl_def)

lemma binade_prod: "binade 45711536217810530000 2251799813685248 = 14"
  by (simp add: binade_def compute_bitlen Let_def)

lemma float_mul_2_03: "float_mul (Fin 4571153621781053 (- 51)) (Fin 10000 0) = Fin 5580021510963199 (- 38)"
  by (simp add: float_mul_def fl_dyadic_def fl_def binade_prod round_half_even_def Let_def)

lemma binade_sum: "binade 5580021510963199 274877906944 = 14"
  by (simp add: binade_def compute_bitlen Let_def)

lemma float_add_0: "float_add (Fin 0 0) (Fin 5580021510963199 (- 38)) = Fin 5580021510963199 (- 38)"
  by (simp add: float_add_def fl_dyadic_def fl_def binade_sum round_half_even_def Let_def)

lemma float_sum_0_2_03:
  "float_sum (Fin 0 0) (Fin 4571153621781053 (- 51)) = Fin 5580021510963199 (- 38)"
  by (simp add: float_sum_def float_mul_0 float_mul_2_03 float_add_0)

lemma estimate_0_2_03: "estimate_metric ''0'' ''2.03'' = Inr 20299"
  by (simp add: estimate_metric_def py_float_0 py_float_2_03 float_sum_0_2_03 py_int_def)

lemma decimal_0: "decimal_value ''0'' = 0"
  by (simp add: decimal_value_def decimal_digits_def decimal_places_def is_digit_def
      nat_of_digits_def digit_value_def)

lemma decimal_2_03: "decimal_value ''2.03'' = 203 / 100"
  by (simp add: decimal_value_def decimal_digits_def decimal_places_def is_digit_def
      nat_of_digits_def digit_value_def)

lemma round_half_even_nonneg: "0 \<le> p \<Longrightarrow> 0 < q \<Longrightarrow> 0 \<le> round_half_even p q"
  by (auto simp: round_half_even_def Let_def pos_imp_zdiv_nonneg_iff)

lemma fl_nonneg: "0 \<le> p \<Longrightarrow> 0 < q \<Longrightarrow> float_nonneg (fl p q)"
  by (auto simp: fl_def Let_def intro!: round_half_even_nonneg mult_nonneg_nonneg mult_pos_pos)

lemma fl_dyadic_nonneg: "0 \<le> m \<Longrightarrow> float_nonneg (fl_dyadic m e)"
  by (auto simp: fl_dyadic_def intro!: fl_nonneg mult_nonneg_nonneg)

lemma float_mul_nonneg: "float_nonneg a \<Longrightarrow> float_nonneg b \<Longrightarrow> float_nonneg (float_mul a b)"
  by (cases a; cases b) (auto simp: float_mul_def intro!: fl_dyadic_nonneg mult_nonneg_nonneg)

lemma float_add_nonneg: "float_nonneg a \<Longrightarrow> float_nonneg b \<Longrightarrow> float_nonneg (float_add a b)"
  by (cases a; cases b)
    (auto simp: float_add_def Let_def intro!: fl_dyadic_nonneg mult_nonneg_nonneg add_nonneg_nonneg)

lemma float_sum_nonneg: "float_nonneg a \<Longrightarrow> float_nonneg b \<Longrightarrow> float_nonneg (float_sum a b)"
  by (simp add: float_sum_def float_add_nonneg float_mul_nonneg)

lemma py_float_nonneg: "py_float s = Inr a \<Longrightarrow> float_nonneg a"
  by (auto simp: py_float_def split: if_splits intro!: fl_nonneg)

lemma py_int_floor:
  assumes "py_int x = Inr n" and "float_nonneg x"
  shows "\<exists>v. float_value x = Some v \<and> n = \<lfloor>v\<rfloor>"
proof (cases x)
  case (Fin m e)
  with assms(2) have m: "0 \<le> m" by simp
  show ?thesis
  proof (cases "0 \<le> e")
    case True
    with Fin assms(1) have n: "n = m * 2 ^ nat e"
      by (simp add: py_int_def)
    have "of_int m * pow2 e = (of_int (m * 2 ^ nat e) :: rat)"
      using True by (simp add: pow2_def)
    then have "\<lfloor>of_int m * pow2 e\<rfloor> = m * 2 ^ nat e"
      by (simp only: floor_of_int)
    with Fin n show ?thesis by simp
  next
    case False
    with Fin assms(1) m have n: "n = m div 2 ^ nat (- e)"
      by (simp add: py_int_def)
    have "of_int m * pow2 e = (of_int m / of_int (2 ^ nat (- e)) :: rat)"
      using False by (simp add: pow2_def)
    then have "\<lfloor>of_int m * pow2 e\<rfloor> = m div 2 ^ nat (- e)"
      by (simp only: floor_divide_of_int_eq)
    with Fin n show ?thesis by simp
  qed
next
  case PosInf
  with assms(1) show ?thesis by (simp add: py_int_def)
next
  case NaN
  with assms(1) show ?thesis by (simp add: py_int_def)
qed

lemma floor_le_round: "\<lfloor>v\<rfloor> \<le> round (v :: rat) \<and> round v \<le> \<lfloor>v\<rfloor> + 1"
proof -
  have "\<lfloor>v\<rfloor> \<le> \<lfloor>v + 1 / 2\<rfloor>"
    by (rule floor_mono) simp
  moreover have "\<lfloor>v + 1 / 2\<rfloor> \<le> \<lfloor>v + 1\<rfloor>"
    by (rule floor_mono) simp
  ultimately show ?thesis
    by (simp add: round_def)
qed

text \<open>
  C3, as amended. \<open>_estimate_metric\<close> returns the float
  \<open>float(position_1) * 1e8 + float(position_2) * 1e4\<close> truncated towards zero, not
  rounded: the result is the floor of that (non-negative) float, so it is the rounded
  value or one less. For the groups \<open>3\<close> and \<open>1500\<close> it is 315000000.
\<close>

theorem estimate_metric_truncates:
  "estimate_metric ''3'' ''1500'' = Inr 315000000
   \<and> (estimate_metric position_1 position_2 = Inr n \<longrightarrow>
        (\<exists>a b v. py_float position_1 = Inr a \<and> py_float position_2 = Inr b
           \<and> float_value (float_sum a b) = Some v
           \<and> n = \<lfloor>v\<rfloor> \<and> n \<le> round v \<and> round v \<le> n + 1))"
proof (intro conjI impI)
  show "estimate_metric ''3'' ''1500'' = Inr 315000000"
    by (rule estimate_3_1500)
next
  assume a: "estimate_metric position_1 position_2 = Inr n"
  then obtain a b where fa: "py_float position_1 = Inr a" and fb: "py_float position_2 = Inr b"
    and i: "py_int (float_sum a b) = Inr n"
    by (auto simp: estimate_metric_def split: sum.splits)
  have "float_nonneg (float_sum a b)"
    using fa fb by (intro float_sum_nonneg py_float_nonneg)
  from py_int_floor[OF i this] obtain v where v: "float_value (float_sum a b) = Some v" "n = \<lfloor>v\<rfloor>"
    by (elim exE conjE)
  from floor_le_round[of v] v(2) have "n \<le> round v" "round v \<le> n + 1"
    by simp_all
  with fa fb v show "\<exists>a b v. py_float position_1 = Inr a \<and> py_float position_2 = Inr b
           \<and> float_value (float_sum a b) = Some v
           \<and> n = \<lfloor>v\<rfloor> \<and> n \<le> round v \<and> round v \<le> n + 1"
    by (intro exI[of _ a] exI[of _ b] exI[of _ v]) simp
qed

theorem estimate_metric_truncates_witness:
  "estimate_metric ''0'' ''2.03'' = Inr 20299
   \<and> py_float ''0'' = Inr (Fin 0 0)
   \<and> py_float ''2.03'' = Inr (Fin 4571153621781053 (- 51))
   \<and> float_value (float_sum (Fin 0 0) (Fin 4571153621781053 (- 51)))
       = Some (5580021510963199 / 2 ^ 38)
   \<and> (20299 :: int) = \<lfloor>5580021510963199 / 2 ^ 38 :: rat\<rfloor>
   \<and> (20299 :: int) \<le> round (5580021510963199 / 2 ^ 38 :: rat)
   \<and> round (5580021510963199 / 2 ^ 38 :: rat) \<le> (20299 :: int) + 1"
proof -
  note th = estimate_metric_truncates[of "''0''" "''2.03''" 20299, THEN conjunct2, THEN mp,
      OF estimate_0_2_03]
  then obtain a b v where a: "py_float ''0'' = Inr a" and b: "py_float ''2.03'' = Inr b"
    and v: "float_value (float_sum a b) = Some v"
    and n: "20299 = \<lfloor>v\<rfloor>" "20299 \<le> round v" "round v \<le> 20299 + 1"
    by (elim exE conjE)
  from a b have ab: "a = Fin 0 0" "b = Fin 4571153621781053 (- 51)"
    by (simp_all add: py_float_0 py_float_2_03)
  have fv: "float_value (float_sum (Fin 0 0) (Fin 4571153621781053 (- 51)))
       = Some (5580021510963199 / 2 ^ 38)"
    by (simp add: float_sum_0_2_03 pow2_def)
  with v ab have "v = 5580021510963199 / 2 ^ 38"
    by simp
  with n have 5: "(20299 :: int) = \<lfloor>5580021510963199 / 2 ^ 38 :: rat\<rfloor>"
    and 6: "(20299 :: int) \<le> round (5580021510963199 / 2 ^ 38 :: rat)"
    and 7: "round (5580021510963199 / 2 ^ 38 :: rat) \<le> (20299 :: int) + 1"
    by simp_all
  show ?thesis
    by (intro conjI estimate_0_2_03 py_float_0 py_float_2_03 fv 5 6 7)
qed

theorem estimate_metric_round_counterexample:
  "is_decimal ''0'' \<and> is_decimal ''2.03''
   \<and> estimate_metric ''0'' ''2.03'' = Inr 20299
   \<and> round (decimal_value ''0'' * 100000000 + decimal_value ''2.03'' * 10000) = 20300
   \<and> py_float ''0'' = Inr (Fin 0 0)
   \<and> py_float ''2.03'' = Inr (Fin 4571153621781053 (- 51))
   \<and> float_value (float_sum (Fin 0 0) (Fin 4571153621781053 (- 51)))
       = Some (5580021510963199 / 2 ^ 38)
   \<and> round (5580021510963199 / 2 ^ 38 :: rat) = 20300"
proof -
  have 1: "is_decimal ''0''" and 2: "is_decimal ''2.03''"
    by (simp_all add: is_decimal_def is_digit_def)
  have 4: "round (decimal_value ''0'' * 100000000 + decimal_value ''2.03'' * 10000) = 20300"
    by (simp add: decimal_0 decimal_2_03)
  have 7: "float_value (float_sum (Fin 0 0) (Fin 4571153621781053 (- 51)))
       = Some (5580021510963199 / 2 ^ 38)"
    by (simp add: float_sum_0_2_03 pow2_def)
  have 8: "round (5580021510963199 / 2 ^ 38 :: rat) = 20300"
    by (rule round_unique) simp_all
  show ?thesis
    by (intro conjI 1 2 estimate_0_2_03 4 py_float_0 py_float_2_03 7 8)
qed

end
